theory Spec2Isabelle
  imports Complex_Main "HOL-Library.Char_ord" "HOL-Library.List_Lexorder" "HOL-Library.Sublist"
begin

section \<open>Exceptions, external calls and the world\<close>

text \<open>
  The pipeline is Python. An exception is a value: its class (only the classes the code
  distinguishes are kept apart) and the text that \<^verbatim>\<open>str(e)\<close> gives. Every class here
  derives from \<^verbatim>\<open>Exception\<close>, so \<^verbatim>\<open>except Exception\<close> catches all of them.
\<close>

datatype exn_class = ValueError | TypeError | OverflowError | RuntimeError | OSError | OtherException

datatype exn = Exn exn_class string

fun exn_class_of :: "exn \<Rightarrow> exn_class" where
  "exn_class_of (Exn c m) = c"

fun str_exn :: "exn \<Rightarrow> string" where
  "str_exn (Exn c m) = m"

text \<open>
  A path is the list of its components (\<^verbatim>\<open>pathlib\<close> compares and sorts paths component
  by component); \<^verbatim>\<open>str(path)\<close> joins them with a slash, \<^verbatim>\<open>path.name\<close> is the last
  component and \<^verbatim>\<open>path.stem\<close> is the name without its last suffix.
\<close>

type_synonym path = "string list"

fun str_path :: "path \<Rightarrow> string" where
  "str_path [] = ''.''"
| "str_path [c] = c"
| "str_path (c # cs) = c @ ''/'' @ str_path cs"

definition path_name :: "path \<Rightarrow> string" where
  "path_name p = (if p = [] then [] else last p)"

fun rfind_dot :: "string \<Rightarrow> nat option" where
  "rfind_dot [] = None"
| "rfind_dot (c # cs) =
     (case rfind_dot cs of
        Some i \<Rightarrow> Some (Suc i)
      | None \<Rightarrow> if c = CHR ''.'' then Some 0 else None)"

definition path_stem :: "path \<Rightarrow> string" where
  "path_stem p =
     (let name = path_name p in
      case rfind_dot name of
        None \<Rightarrow> name
      | Some i \<Rightarrow> if 0 < i \<and> i < length name - 1 then take i name else name)"

text \<open>
  A registry row, as \<^verbatim>\<open>FileRegistry.ensure_registry_exists\<close> declares the table:
  \<^verbatim>\<open>file_name\<close>, \<^verbatim>\<open>checksum\<close>, \<^verbatim>\<open>processed_at\<close>, \<^verbatim>\<open>status\<close> are required,
  \<^verbatim>\<open>error_message\<close> and \<^verbatim>\<open>row_count\<close> are nullable. A timestamp is a number of
  microseconds.
\<close>

datatype status = SUCCESS | FAILED

record file_record =
  file_name :: string
  checksum :: string
  processed_at :: nat
  status :: status
  error_message :: "string option"
  row_count :: "nat option"

text \<open>
  Values of a normalized row (Python's \<^verbatim>\<open>None\<close>, \<^verbatim>\<open>str\<close>, \<^verbatim>\<open>int\<close>, \<^verbatim>\<open>float\<close>,
  \<^verbatim>\<open>bool\<close>). A float is an IEEE double: not-a-number, an infinity with its sign
  (\<open>True\<close> for negative), or a finite value, kept as the rational it denotes (the sign
  of zero is not kept).
\<close>

datatype pyfloat = FNan | FInf bool | FFin rat

datatype pyval = PNone | PStr string | PInt int | PFloat pyfloat | PBool bool

type_synonym raw_row = "string \<rightharpoonup> string option"

type_synonym norm_row = "(string \<times> pyval) list"

text \<open>
  What the program does to the outside is kept as the list of the calls it makes, oldest
  first, next to the one piece of outside state it reads back, the registry table (its
  rows in insertion order). Of the logging only the warnings and errors of the registry
  client and the summary line of the run are kept; the other lines are left out.
\<close>

datatype level = WARNING | ERROR

datatype call =
    GetRegistryTable
  | CreateRegistryTable
  | GetTargetTable
  | CreateTargetTable
  | Glob
  | Hash path
  | Query string
  | InsertRow file_record
  | Logged level string
  | ParseXlsx path
  | Serialize "norm_row list" string
  | Upload path
  | LoadJob string
  | Summary nat nat nat

record world =
  registry :: "file_record list"
  calls :: "call list"

type_synonym 'a io = "world \<Rightarrow> (exn + 'a) \<times> world"

definition ret :: "'a \<Rightarrow> 'a io" where
  "ret x w = (Inr x, w)"

definition raise :: "exn \<Rightarrow> 'a io" where
  "raise e w = (Inl e, w)"

definition io_bind :: "'a io \<Rightarrow> ('a \<Rightarrow> 'b io) \<Rightarrow> 'b io" where
  "io_bind m f w = (case m w of (Inl e, w') \<Rightarrow> (Inl e, w') | (Inr x, w') \<Rightarrow> f x w')"

definition try_except :: "'a io \<Rightarrow> (exn \<Rightarrow> 'a io) \<Rightarrow> 'a io" where
  "try_except m h w = (case m w of (Inl e, w') \<Rightarrow> h e w' | (Inr x, w') \<Rightarrow> (Inr x, w'))"

definition emit :: "call \<Rightarrow> unit io" where
  "emit c w = (Inr (), w\<lparr>calls := calls w @ [c]\<rparr>)"

text \<open>An outside call that either raises or returns: the call is recorded either way.\<close>

definition external :: "call \<Rightarrow> exn + 'a \<Rightarrow> 'a io" where
  "external c outcome w = (outcome, w\<lparr>calls := calls w @ [c]\<rparr>)"

section \<open>state.py: the file registry\<close>

text \<open>
  \<^verbatim>\<open>SELECT checksum FROM registry WHERE file_name = @file_name AND status = 'SUCCESS'
  ORDER BY processed_at DESC LIMIT 1\<close>: the rows of that name with status SUCCESS,
  latest first, at most one of them. Among rows with the same \<^verbatim>\<open>processed_at\<close>
  the warehouse may return any; here the one inserted last comes first.
\<close>

definition success_rows :: "file_record list \<Rightarrow> string \<Rightarrow> file_record list" where
  "success_rows tbl n = filter (\<lambda>r. file_name r = n \<and> status r = SUCCESS) tbl"

definition select_checksum :: "file_record list \<Rightarrow> string \<Rightarrow> string list" where
  "select_checksum tbl n =
     take 1 (map checksum (rev (sort_key processed_at (success_rows tbl n))))"

text \<open>
  \<^verbatim>\<open>self.client.query(query, job_config).result()\<close>: the outcome \<open>q\<close> says whether
  the query raises (\<open>Some e\<close>) or runs (\<open>None\<close>).
\<close>

definition client_query :: "exn option \<Rightarrow> string \<Rightarrow> string list io" where
  "client_query q n w =
     external (Query n) (case q of Some e \<Rightarrow> Inl e | None \<Rightarrow> Inr (select_checksum (registry w) n)) w"

definition get_checksum :: "exn option \<Rightarrow> string \<Rightarrow> string option io" where
  "get_checksum q n =
     try_except
       (io_bind (client_query q n) (\<lambda>result.
          ret (case result of [] \<Rightarrow> None | c # _ \<Rightarrow> Some c)))
       (\<lambda>e. io_bind
          (emit (Logged WARNING (''Failed to query checksum for '' @ n @ '': '' @ str_exn e)))
          (\<lambda>_. ret None))"

text \<open>
  \<^verbatim>\<open>self.client.insert_rows_json(table_ref, [row])\<close> returns the list of row errors
  (empty when the row went in) or raises.
\<close>

datatype insert_outcome = InsertOk | InsertErrors string | InsertRaises exn

definition insert_rows_json :: "insert_outcome \<Rightarrow> file_record \<Rightarrow> string option io" where
  "insert_rows_json ins r w =
     (case ins of
        InsertOk \<Rightarrow> (Inr None, w\<lparr>registry := registry w @ [r], calls := calls w @ [InsertRow r]\<rparr>)
      | InsertErrors errs \<Rightarrow> (Inr (Some errs), w\<lparr>calls := calls w @ [InsertRow r]\<rparr>)
      | InsertRaises e \<Rightarrow> (Inl e, w\<lparr>calls := calls w @ [InsertRow r]\<rparr>))"

text \<open>
  \<^verbatim>\<open>record_processing\<close>: \<open>utcnow\<close> is what \<^verbatim>\<open>datetime.utcnow()\<close> returns at the
  call, \<open>ins\<close> what the insertion of a given row does.
\<close>

definition record_processing ::
  "(file_record \<Rightarrow> insert_outcome) \<Rightarrow> nat \<Rightarrow> string \<Rightarrow> string \<Rightarrow> status \<Rightarrow> string option \<Rightarrow> nat option
     \<Rightarrow> unit io" where
  "record_processing ins utcnow fname csum st err rows =
     (let row = \<lparr>file_name = fname, checksum = csum, processed_at = utcnow, status = st,
                 error_message = err, row_count = rows\<rparr> in
      try_except
        (io_bind (insert_rows_json (ins row) row) (\<lambda>errors.
           case errors of
             Some errs \<Rightarrow> emit (Logged ERROR (''Failed to record processing state: '' @ errs))
           | None \<Rightarrow> ret ()))
        (\<lambda>e. emit (Logged ERROR (''Failed to insert registry row: '' @ str_exn e))))"

definition should_process :: "exn option \<Rightarrow> path \<Rightarrow> string \<Rightarrow> bool io" where
  "should_process q file_path csum =
     io_bind (get_checksum q (path_name file_path)) (\<lambda>stored_checksum.
       if stored_checksum = None then ret True
       else if stored_checksum \<noteq> Some csum then ret True
       else ret False)"


section \<open>schema.py: normalization\<close>

subsection \<open>Python's \<^verbatim>\<open>float(str)\<close>, \<^verbatim>\<open>int(float)\<close> and \<^verbatim>\<open>str.lower\<close>\<close>

text \<open>
  Strings are ASCII. \<^verbatim>\<open>float\<close> strips white space, reads an optional sign, then
  \<^verbatim>\<open>inf\<close>, \<^verbatim>\<open>infinity\<close> or \<^verbatim>\<open>nan\<close> in any case, or a decimal number with an
  optional exponent, where single underscores may stand between digits. Anything else is
  a \<^verbatim>\<open>ValueError\<close> (its message quotes the string; the escapes of \<^verbatim>\<open>repr\<close>
  are not kept, and nothing in this program reads the message). The number read is
  rounded to the nearest double, ties to even, and to an infinity from \<open>2 ^ 1024\<close> on.
\<close>

definition is_space :: "char \<Rightarrow> bool" where
  "is_space c = (of_char c \<in> {9, 10, 11, 12, 13, 32 :: nat})"

definition strip :: "string \<Rightarrow> string" where
  "strip s = rev (dropWhile is_space (rev (dropWhile is_space s)))"

definition is_digit :: "char \<Rightarrow> bool" where
  "is_digit c = (48 \<le> (of_char c :: nat) \<and> (of_char c :: nat) \<le> 57)"

definition digit_val :: "char \<Rightarrow> nat" where
  "digit_val c = of_char c - 48"

definition lower_char :: "char \<Rightarrow> char" where
  "lower_char c =
     (case map_of (zip ''ABCDEFGHIJKLMNOPQRSTUVWXYZ'' ''abcdefghijklmnopqrstuvwxyz'') c of
        Some l \<Rightarrow> l
      | None \<Rightarrow> c)"

definition lower :: "string \<Rightarrow> string" where
  "lower s = map lower_char s"

text \<open>A run of digits with single underscores between them; the digits are returned.\<close>

fun digits_tail :: "string \<Rightarrow> string option" where
  "digits_tail [] = Some []"
| "digits_tail [c] = (if is_digit c then Some [c] else None)"
| "digits_tail (c # d # ds) =
     (if is_digit c then map_option (Cons c) (digits_tail (d # ds))
      else if c = CHR ''_'' \<and> is_digit d then map_option (Cons d) (digits_tail ds)
      else None)"

definition digitpart :: "string \<Rightarrow> string option" where
  "digitpart s =
     (case s of [] \<Rightarrow> None | c # cs \<Rightarrow> if is_digit c then digits_tail s else None)"

definition nat_of_digits :: "string \<Rightarrow> nat" where
  "nat_of_digits ds = foldl (\<lambda>n c. 10 * n + digit_val c) 0 ds"

text \<open>
  The mantissa \<^verbatim>\<open>[digitpart] "." digitpart | digitpart ["."]\<close>: its digits before
  and after the point.
\<close>

definition mantissa :: "string \<Rightarrow> (string \<times> string) option" where
  "mantissa s =
     (let ip = takeWhile (\<lambda>c. c \<noteq> CHR ''.'') s; rest = dropWhile (\<lambda>c. c \<noteq> CHR ''.'') s in
      if rest = [] then map_option (\<lambda>i. (i, [])) (digitpart ip)
      else let fp = tl rest in
        if fp = [] then map_option (\<lambda>i. (i, [])) (digitpart ip)
        else if ip = [] then map_option (\<lambda>f. ([], f)) (digitpart fp)
        else (case (digitpart ip, digitpart fp) of
                (Some i, Some f) \<Rightarrow> Some (i, f)
              | _ \<Rightarrow> None))"

text \<open>The exponent \<^verbatim>\<open>[sign] digitpart\<close>.\<close>

definition exponent :: "string \<Rightarrow> int option" where
  "exponent s =
     (case s of
        [] \<Rightarrow> None
      | c # cs \<Rightarrow>
          if c = CHR ''-'' then map_option (\<lambda>d. - int (nat_of_digits d)) (digitpart cs)
          else if c = CHR ''+'' then map_option (\<lambda>d. int (nat_of_digits d)) (digitpart cs)
          else map_option (\<lambda>d. int (nat_of_digits d)) (digitpart s))"

definition pow10 :: "int \<Rightarrow> rat" where
  "pow10 e = (if 0 \<le> e then 10 ^ nat e else 1 / 10 ^ nat (- e))"

definition pow2 :: "int \<Rightarrow> rat" where
  "pow2 e = (if 0 \<le> e then 2 ^ nat e else 1 / 2 ^ nat (- e))"

text \<open>The value of \<^verbatim>\<open>floatnumber\<close>, exact.\<close>

definition floatnumber :: "string \<Rightarrow> rat option" where
  "floatnumber s =
     (let is_e = (\<lambda>c. c = CHR ''e'' \<or> c = CHR ''E'');
          m = takeWhile (\<lambda>c. \<not> is_e c) s; rest = dropWhile (\<lambda>c. \<not> is_e c) s in
      case mantissa m of
        None \<Rightarrow> None
      | Some (i, f) \<Rightarrow>
          let v = of_nat (nat_of_digits (i @ f)) * pow10 (- int (length f)) in
          if rest = [] then Some v
          else map_option (\<lambda>e. v * pow10 e) (exponent (tl rest)))"

fun bit_length :: "nat \<Rightarrow> nat" where
  "bit_length n = (if n = 0 then 0 else Suc (bit_length (n div 2)))"

declare bit_length.simps [simp del]

text \<open>
  For a positive rational \<open>a\<close>, the \<open>e\<close> with \<open>2 ^ e \<le> a < 2 ^ (e + 1)\<close>, read off
  the length of \<open>\<lfloor>a\<rfloor>\<close> from 1 on and off that of \<open>\<lceil>1 / a\<rceil> - 1\<close> below 1.
\<close>

definition floor_log2 :: "rat \<Rightarrow> int" where
  "floor_log2 a =
     (if 1 \<le> a then int (bit_length (nat \<lfloor>a\<rfloor>)) - 1
      else - int (bit_length (nat (\<lceil>1 / a\<rceil> - 1))))"

definition round_half_even :: "rat \<Rightarrow> int" where
  "round_half_even q =
     (let f = \<lfloor>q\<rfloor>; d = q - of_int f in
      if d < 1 / 2 then f else if 1 / 2 < d then f + 1 else if even f then f else f + 1)"

definition round_double :: "rat \<Rightarrow> pyfloat" where
  "round_double x =
     (if x = 0 then FFin 0
      else let a = \<bar>x\<bar>;
               e = max (floor_log2 a) (- 1022);
               u = pow2 (e - 52);
               v = of_int (round_half_even (a / u)) * u
           in if pow2 1024 \<le> v then FInf (x < 0) else FFin (if x < 0 then - v else v))"

definition py_float :: "string \<Rightarrow> exn + pyfloat" where
  "py_float s =
     (let t = strip s;
          neg = (t \<noteq> [] \<and> hd t = CHR ''-'');
          body = (if t \<noteq> [] \<and> (hd t = CHR ''-'' \<or> hd t = CHR ''+'') then tl t else t)
      in if lower body = ''inf'' \<or> lower body = ''infinity'' then Inr (FInf neg)
         else if lower body = ''nan'' then Inr FNan
         else (case floatnumber body of
                 None \<Rightarrow> Inl (Exn ValueError (''could not convert string to float: '' @
                   [CHR 0x27] @ s @ [CHR 0x27]))
               | Some v \<Rightarrow> Inr (round_double (if neg then - v else v))))"

text \<open>\<^verbatim>\<open>int(f)\<close> truncates towards zero, and raises on an infinity and on not-a-number.\<close>

fun py_int :: "pyfloat \<Rightarrow> exn + int" where
  "py_int FNan = Inl (Exn ValueError ''cannot convert float NaN to integer'')"
| "py_int (FInf neg) = Inl (Exn OverflowError ''cannot convert float infinity to integer'')"
| "py_int (FFin q) = Inr (if 0 \<le> q then \<lfloor>q\<rfloor> else \<lceil>q\<rceil>)"

subsection \<open>\<^verbatim>\<open>SchemaNormalizer\<close>\<close>

record schema_field =
  name :: string
  ftype :: string
  mode :: string

text \<open>
  \<^verbatim>\<open>except (ValueError, TypeError)\<close> around the casts: these two classes become
  \<^verbatim>\<open>None\<close>, any other exception goes on.
\<close>

definition except_value_type_error :: "exn + pyval \<Rightarrow> exn + pyval" where
  "except_value_type_error r =
     (case r of
        Inl e \<Rightarrow> if exn_class_of e = ValueError \<or> exn_class_of e = TypeError then Inr PNone else Inl e
      | Inr v \<Rightarrow> Inr v)"

definition cast_value :: "string option \<Rightarrow> string \<Rightarrow> string \<Rightarrow> exn + pyval" where
  "cast_value val target_type column_name =
     (case val of
        None \<Rightarrow> Inr PNone
      | Some v \<Rightarrow>
          if v = '''' then Inr PNone
          else except_value_type_error
            (if target_type = ''STRING'' then Inr (PStr v)
             else if target_type = ''INTEGER'' then
               (case py_float v of
                  Inl e \<Rightarrow> Inl e
                | Inr f \<Rightarrow> (case py_int f of Inl e \<Rightarrow> Inl e | Inr i \<Rightarrow> Inr (PInt i)))
             else if target_type = ''FLOAT'' then
               (case py_float v of Inl e \<Rightarrow> Inl e | Inr f \<Rightarrow> Inr (PFloat f))
             else if target_type = ''BOOLEAN'' then
               Inr (PBool (lower v \<in> set [''true'', ''1'', ''yes'', ''y'']))
             else if target_type = ''DATE'' then Inr (PStr v)
             else if target_type = ''TIMESTAMP'' then Inr (PStr v)
             else Inr (PStr v)))"

text \<open>
  A normalized row is a Python dict, which keeps its keys in the order of their first
  assignment: assigning to a key that is there replaces its value in place.
\<close>

fun dict_set :: "norm_row \<Rightarrow> string \<Rightarrow> pyval \<Rightarrow> norm_row" where
  "dict_set [] k v = [(k, v)]"
| "dict_set ((k', v') # kvs) k v = (if k' = k then (k, v) # kvs else (k', v') # dict_set kvs k v)"

definition row_get :: "raw_row \<Rightarrow> string \<Rightarrow> string option" where
  "row_get row col = (case row col of None \<Rightarrow> Some '''' | Some v \<Rightarrow> v)"

text \<open>The loop over the schema's fields, filling \<^verbatim>\<open>normalized_row\<close>.\<close>

fun cast_fields :: "schema_field list \<Rightarrow> raw_row \<Rightarrow> norm_row \<Rightarrow> exn + norm_row" where
  "cast_fields [] row normalized_row = Inr normalized_row"
| "cast_fields (f # fs) row normalized_row =
     (case cast_value (row_get row (name f)) (ftype f) (name f) of
        Inl e \<Rightarrow> Inl e
      | Inr v \<Rightarrow> cast_fields fs row (dict_set normalized_row (name f) v))"

text \<open>
  One row: the schema's columns, then the audit fields. \<open>ts\<close> is
  \<^verbatim>\<open>datetime.utcnow().isoformat()\<close> at that row.
\<close>

definition normalize_row :: "schema_field list \<Rightarrow> path \<Rightarrow> string \<Rightarrow> string \<Rightarrow> raw_row \<Rightarrow> exn + norm_row" where
  "normalize_row schema source_file csum ts row =
     (case cast_fields schema row [] of
        Inl e \<Rightarrow> Inl e
      | Inr normalized_row \<Rightarrow>
          Inr (dict_set (dict_set (dict_set normalized_row
                 ''source_file'' (PStr (str_path source_file)))
                 ''checksum'' (PStr csum))
                 ''ingest_ts'' (PStr ts)))"

text \<open>
  The loop over the rows, appending to \<^verbatim>\<open>normalized_data\<close>; \<open>clock i\<close> is the time
  string at row \<open>i\<close>.
\<close>

fun normalize_rows ::
  "schema_field list \<Rightarrow> path \<Rightarrow> string \<Rightarrow> (nat \<Rightarrow> string) \<Rightarrow> nat \<Rightarrow> raw_row list \<Rightarrow> norm_row list
     \<Rightarrow> exn + norm_row list" where
  "normalize_rows schema source_file csum clock i [] normalized_data = Inr normalized_data"
| "normalize_rows schema source_file csum clock i (row # rows) normalized_data =
     (case normalize_row schema source_file csum (clock i) row of
        Inl e \<Rightarrow> Inl e
      | Inr normalized_row \<Rightarrow>
          normalize_rows schema source_file csum clock (Suc i) rows (normalized_data @ [normalized_row]))"

definition normalize ::
  "schema_field list \<Rightarrow> (nat \<Rightarrow> string) \<Rightarrow> raw_row list \<Rightarrow> path \<Rightarrow> string \<Rightarrow> exn + norm_row list" where
  "normalize schema clock data source_file csum =
     (if data = [] then Inr [] else normalize_rows schema source_file csum clock 0 data [])"

text \<open>The three audit keys that \<^verbatim>\<open>normalize\<close> sets in every row.\<close>

definition audit_keys :: "string list" where
  "audit_keys = [''source_file'', ''checksum'', ''ingest_ts'']"

section \<open>discovery.py: file discovery\<close>

subsection \<open>\<^verbatim>\<open>fnmatch.fnmatch\<close> on POSIX\<close>

text \<open>
  \<^verbatim>\<open>fnmatch\<close> translates a pattern piece by piece: \<^verbatim>\<open>*\<close> matches any run of
  characters, \<^verbatim>\<open>?\<close> any one character, \<^verbatim>\<open>[seq]\<close> and \<^verbatim>\<open>[!seq]\<close> one character in
  or not in a set, any other character itself. A \<^verbatim>\<open>[\<close> with no closing bracket stands
  for itself. On POSIX no case folding takes place. A set is kept as its single
  characters and its ranges; \<open>True\<close> marks a negated set.
\<close>

datatype glob_token = Star | AnyChar | Lit char | CharSet bool "char list" "(char \<times> char) list"

text \<open>\<^verbatim>\<open>s.find(c, k)\<close>: the first index from \<open>k\<close> on where \<open>c\<close> stands.\<close>

definition index_of :: "char \<Rightarrow> string \<Rightarrow> nat \<Rightarrow> nat option" where
  "index_of c s k =
     (if c \<in> set (drop k s) then Some (k + length (takeWhile (\<lambda>x. x \<noteq> c) (drop k s))) else None)"

text \<open>
  The end of a bracket expression: \<open>find_close s\<close> is the index in \<open>s\<close> (the text
  after the opening bracket) of the closing bracket, looked for after a leading
  \<^verbatim>\<open>!\<close> and then a leading \<^verbatim>\<open>]\<close>.
\<close>

definition find_close :: "string \<Rightarrow> nat option" where
  "find_close s =
     (let j = (if 0 < length s \<and> s ! 0 = CHR ''!'' then 1 else 0);
          j' = (if j < length s \<and> s ! j = CHR '']'' then Suc j else j)
      in index_of (CHR '']'') s j')"

text \<open>
  The chunks of a bracket expression that holds a hyphen: it is cut at each hyphen found
  from position \<open>k\<close> on, the search resuming three places after the hyphen. When
  nothing is left after the last hyphen, that hyphen goes to the end of the last chunk.
\<close>

function split_chunks :: "string \<Rightarrow> nat \<Rightarrow> nat \<Rightarrow> string list" where
  "split_chunks stuff i k =
     (case index_of (CHR ''-'') stuff k of
        None \<Rightarrow> [drop i stuff]
      | Some k' \<Rightarrow> take (k' - i) (drop i stuff) # split_chunks stuff (Suc k') (k' + 3))"
  by pat_completeness auto
termination
proof (relation "measure (\<lambda>(stuff, i, k). length stuff - k)")
  show "wf (measure (\<lambda>(stuff, i, k). length stuff - k))" by simp
next
  fix stuff :: string and i k k' :: nat
  assume "index_of (CHR ''-'') stuff k = Some k'"
  then have "CHR ''-'' \<in> set (drop k stuff)" and "k \<le> k'"
    by (auto simp: index_of_def split: if_splits)
  then have "k < length stuff" by (cases "k < length stuff") auto
  with \<open>k \<le> k'\<close> show "((stuff, Suc k', k' + 3), (stuff, i, k)) \<in> measure (\<lambda>(stuff, i, k). length stuff - k)"
    by simp
qed

definition chunks_of :: "string \<Rightarrow> string list" where
  "chunks_of stuff =
     (let cs = split_chunks stuff 0 (if stuff \<noteq> [] \<and> hd stuff = CHR ''!'' then 2 else 1) in
      if last cs = [] \<and> butlast cs \<noteq> [] then butlast (butlast cs) @ [last (butlast cs) @ ''-'']
      else cs)"

text \<open>
  A range whose start lies after its end is empty: going from the last chunk to the
  first, such a pair of chunks is joined without the two end points.
\<close>

fun drop_empty_ranges :: "string list \<Rightarrow> string list" where
  "drop_empty_ranges [] = []"
| "drop_empty_ranges [c] = [c]"
| "drop_empty_ranges (c # d # ds) =
     (case drop_empty_ranges (d # ds) of
        [] \<Rightarrow> [c]
      | d' # ds' \<Rightarrow>
          if c \<noteq> [] \<and> d' \<noteq> [] \<and> hd d' < last c then (butlast c @ tl d') # ds'
          else c # d' # ds')"

fun chunk_ranges :: "string list \<Rightarrow> (char \<times> char) list" where
  "chunk_ranges (c # d # ds) = (last c, hd d) # chunk_ranges (d # ds)"
| "chunk_ranges cs = []"

definition bracket :: "string \<Rightarrow> glob_token" where
  "bracket stuff =
     (let chunks = (if CHR ''-'' \<in> set stuff then drop_empty_ranges (chunks_of stuff) else [stuff]);
          chars = concat chunks
      in if chars \<noteq> [] \<and> hd chars = CHR ''!'' then CharSet True (tl chars) (chunk_ranges chunks)
         else CharSet False chars (chunk_ranges chunks))"

fun translate :: "string \<Rightarrow> glob_token list" where
  "translate [] = []"
| "translate (c # cs) =
     (if c = CHR ''*'' then (case translate cs of Star # ts \<Rightarrow> Star # ts | ts \<Rightarrow> Star # ts)
      else if c = CHR ''?'' then AnyChar # translate cs
      else if c = CHR ''['' then
        (case find_close cs of
           None \<Rightarrow> Lit (CHR ''['') # translate cs
         | Some j \<Rightarrow> bracket (take j cs) # translate (drop (Suc j) cs))
      else Lit c # translate cs)"

fun token_matches :: "glob_token \<Rightarrow> char \<Rightarrow> bool" where
  "token_matches Star c = True"
| "token_matches AnyChar c = True"
| "token_matches (Lit a) c = (a = c)"
| "token_matches (CharSet neg chars ranges) c =
     (neg \<noteq> (c \<in> set chars \<or> list_ex (\<lambda>(lo, hi). lo \<le> c \<and> c \<le> hi) ranges))"

text \<open>The whole name must match the whole pattern.\<close>

fun glob_match :: "glob_token list \<Rightarrow> string \<Rightarrow> bool" where
  "glob_match [] s = (s = [])"
| "glob_match (Star # ts) [] = glob_match ts []"
| "glob_match (Star # ts) (c # s) = (glob_match ts (c # s) \<or> glob_match (Star # ts) s)"
| "glob_match (t # ts) [] = False"
| "glob_match (t # ts) (c # s) = (token_matches t c \<and> glob_match ts s)"

definition fnmatch :: "string \<Rightarrow> string \<Rightarrow> bool" where
  "fnmatch n pat = glob_match (translate pat) n"

subsection \<open>\<^verbatim>\<open>FileDiscoverer\<close>\<close>

record discoverer =
  root_dir :: path
  pattern :: string
  ignore_patterns :: "string list"

definition default_ignore_patterns :: "string list" where
  "default_ignore_patterns = [''~$*'', ''.~*'', ''*.tmp'', ''*.temp'']"

text \<open>
  The constructor: \<^verbatim>\<open>ignore_patterns or [...]\<close> takes the defaults for \<^verbatim>\<open>None\<close>
  and for the empty list.
\<close>

definition FileDiscoverer :: "path \<Rightarrow> string \<Rightarrow> string list option \<Rightarrow> discoverer" where
  "FileDiscoverer rootdir pat ign =
     \<lparr>root_dir = rootdir, pattern = pat,
      ignore_patterns = (case ign of None \<Rightarrow> default_ignore_patterns
                         | Some ps \<Rightarrow> if ps = [] then default_ignore_patterns else ps)\<rparr>"

definition should_ignore :: "discoverer \<Rightarrow> path \<Rightarrow> bool" where
  "should_ignore d file_path =
     list_ex (\<lambda>pat. fnmatch (path_name file_path) pat) (ignore_patterns d)"

text \<open>
  The file system, as \<^verbatim>\<open>discover\<close> sees it: whether the root exists, and what
  \<^verbatim>\<open>root_dir.glob(pattern)\<close> yields, each path with what \<^verbatim>\<open>is_file()\<close> says of it
  (or the exception the walk raises).
\<close>

record file_system =
  root_exists :: bool
  glob_result :: "exn + (path \<times> bool) list"

definition discover :: "discoverer \<Rightarrow> file_system \<Rightarrow> path list io" where
  "discover d fs =
     (if \<not> root_exists fs then ret []
      else io_bind (external Glob (glob_result fs)) (\<lambda>entries.
        ret (sort (map fst (filter (\<lambda>(file_path, is_file). is_file \<and> \<not> should_ignore d file_path)
                entries)))))"

section \<open>checksum.py, parser.py, serializer.py, storage.py, bigquery.py\<close>

text \<open>
  What the outside does for one file during one run: the results of hashing the file, of
  the registry query, of reading the spreadsheet, of writing the serialized file, of the
  upload, of the load job and of the registry insertion, and the clock. Each of these
  happens at most once per file and run.
\<close>

record outside =
  hash_file :: "exn + string"
  query_raises :: "exn option"
  xlsx_rows :: "exn + raw_row list"
  row_clock :: "nat \<Rightarrow> string"
  write_file :: "norm_row list \<Rightarrow> string \<Rightarrow> exn + path"
  upload_blob :: "path \<Rightarrow> exn + string"
  load_job :: "string \<Rightarrow> exn + string"
  insert_row :: "file_record \<Rightarrow> insert_outcome"
  record_time :: nat

text \<open>
  \<^verbatim>\<open>ChecksumCalculator.calculate\<close>: an algorithm other than the two known ones is a
  \<^verbatim>\<open>ValueError\<close>; an exception while reading is logged and raised again.
\<close>

definition calculate :: "string \<Rightarrow> exn + string \<Rightarrow> path \<Rightarrow> string io" where
  "calculate algorithm hashed file_path =
     (if algorithm \<noteq> ''md5'' \<and> algorithm \<noteq> ''sha256''
      then raise (Exn ValueError (''Unsupported algorithm: '' @ algorithm))
      else try_except (external (Hash file_path) hashed) (\<lambda>e. raise e))"

text \<open>\<^verbatim>\<open>XLSXParser.parse\<close>: every exception is wrapped in a \<^verbatim>\<open>ValueError\<close>.\<close>

definition parse :: "exn + raw_row list \<Rightarrow> path \<Rightarrow> raw_row list io" where
  "parse rows file_path =
     try_except (external (ParseXlsx file_path) rows)
       (\<lambda>e. raise (Exn ValueError (''Failed to parse '' @ str_path file_path @ '': '' @ str_exn e)))"

text \<open>\<^verbatim>\<open>DataSerializer.serialize\<close> and \<^verbatim>\<open>GCSUploader.upload\<close> raise again what they catch.\<close>

definition serialize :: "(norm_row list \<Rightarrow> string \<Rightarrow> exn + path) \<Rightarrow> norm_row list \<Rightarrow> string \<Rightarrow> path io" where
  "serialize writer data file_stem =
     try_except (external (Serialize data file_stem) (writer data file_stem)) (\<lambda>e. raise e)"

definition upload :: "(path \<Rightarrow> exn + string) \<Rightarrow> path \<Rightarrow> string io" where
  "upload uploader local_path =
     try_except (external (Upload local_path) (uploader local_path)) (\<lambda>e. raise e)"

text \<open>\<^verbatim>\<open>BigQueryLoader.load_from_gcs\<close>: every exception becomes a \<^verbatim>\<open>RuntimeError\<close>.\<close>

definition load_from_gcs :: "(string \<Rightarrow> exn + string) \<Rightarrow> string \<Rightarrow> string io" where
  "load_from_gcs loader gcs_uri =
     try_except (external (LoadJob gcs_uri) (loader gcs_uri))
       (\<lambda>e. raise (Exn RuntimeError (''BigQuery load job failed: '' @ str_exn e)))"

text \<open>
  The warehouse during setup: what \<^verbatim>\<open>get_table\<close> and \<^verbatim>\<open>create_table\<close> do for the
  registry table and for the target table (\<open>None\<close>: the call returns; \<open>Some e\<close>: it
  raises). The target table is looked up once by \<^verbatim>\<open>run\<close> and once more by
  \<^verbatim>\<open>create_table\<close>.
\<close>

record warehouse =
  get_registry_table :: "exn option"
  create_registry_table :: "exn option"
  get_target_table :: "exn option"
  get_target_table_again :: "exn option"
  create_target_table :: "exn option"

fun outcome_of :: "exn option \<Rightarrow> exn + unit" where
  "outcome_of None = Inr ()"
| "outcome_of (Some e) = Inl e"

definition ensure_registry_exists :: "warehouse \<Rightarrow> unit io" where
  "ensure_registry_exists wh =
     try_except (external GetRegistryTable (outcome_of (get_registry_table wh)))
       (\<lambda>e. external CreateRegistryTable (outcome_of (create_registry_table wh)))"

definition table_exists :: "exn option \<Rightarrow> bool io" where
  "table_exists got =
     try_except (io_bind (external GetTargetTable (outcome_of got)) (\<lambda>_. ret True))
       (\<lambda>e. ret False)"

definition create_table :: "warehouse \<Rightarrow> unit io" where
  "create_table wh =
     io_bind (table_exists (get_target_table_again wh)) (\<lambda>there.
       if there then ret ()
       else try_except (external CreateTargetTable (outcome_of (create_target_table wh)))
              (\<lambda>e. raise e))"

section \<open>pipeline.py: the orchestrator\<close>

record config =
  input_directory :: path
  file_pattern :: string
  config_ignore_patterns :: "string list"
  schema :: "schema_field list"
  checksum_algorithm :: string
  output_format :: string
  dry_run :: bool

text \<open>
  The first five statements of the \<^verbatim>\<open>try\<close> block of \<^verbatim>\<open>_process_file\<close>: parse,
  normalize, serialize, upload, load. The result is \<^verbatim>\<open>len(data_normalized)\<close>.
\<close>

definition lift :: "exn + 'a \<Rightarrow> 'a io" where
  "lift r w = (r, w)"

definition transform_and_load :: "config \<Rightarrow> outside \<Rightarrow> path \<Rightarrow> string \<Rightarrow> nat io" where
  "transform_and_load cfg out file_path csum =
     io_bind (parse (xlsx_rows out) file_path) (\<lambda>data.
     io_bind (lift (normalize (schema cfg) (row_clock out) data file_path csum)) (\<lambda>data_normalized.
     io_bind (serialize (write_file out) data_normalized (path_stem file_path)) (\<lambda>serialized_path.
     io_bind (upload (upload_blob out) serialized_path) (\<lambda>gcs_uri.
     io_bind (load_from_gcs (load_job out) gcs_uri) (\<lambda>job_id.
     ret (length data_normalized))))))"

definition process_file :: "config \<Rightarrow> outside \<Rightarrow> path \<Rightarrow> bool io" where
  "process_file cfg out file_path =
     io_bind (calculate (checksum_algorithm cfg) (hash_file out) file_path) (\<lambda>csum.
     io_bind (should_process (query_raises out) file_path csum) (\<lambda>go.
       if \<not> go then ret False
       else if dry_run cfg then ret True
       else try_except
         (io_bind (transform_and_load cfg out file_path csum) (\<lambda>n.
          io_bind (record_processing (insert_row out) (record_time out) (path_name file_path) csum
                     SUCCESS None (Some n)) (\<lambda>_.
          ret True)))
         (\<lambda>e. io_bind (record_processing (insert_row out) (record_time out) (path_name file_path) csum
                     FAILED (Some (str_exn e)) None) (\<lambda>_.
               raise e))))"

text \<open>
  The loop of \<^verbatim>\<open>run\<close> over the discovered files, with its three counters:
  processed, skipped, failed.
\<close>

fun process_files ::
  "config \<Rightarrow> (path \<Rightarrow> outside) \<Rightarrow> path list \<Rightarrow> nat \<times> nat \<times> nat \<Rightarrow> (nat \<times> nat \<times> nat) io" where
  "process_files cfg env [] counts = ret counts"
| "process_files cfg env (file_path # files) (processed_count, skipped_count, failed_count) =
     io_bind
       (try_except
          (io_bind (process_file cfg (env file_path) file_path) (\<lambda>processed.
             if processed then ret (processed_count + 1, skipped_count, failed_count)
             else ret (processed_count, skipped_count + 1, failed_count)))
          (\<lambda>e. ret (processed_count, skipped_count, failed_count + 1)))
       (\<lambda>counts. process_files cfg env files counts)"

text \<open>
  Setup, as \<^verbatim>\<open>run\<close> does it before discovery: the registry table, then the target
  table.
\<close>

definition run_setup :: "warehouse \<Rightarrow> unit io" where
  "run_setup wh =
     io_bind (ensure_registry_exists wh) (\<lambda>_.
     io_bind (table_exists (get_target_table wh)) (\<lambda>there.
       if \<not> there then create_table wh else ret ()))"

text \<open>
  \<^verbatim>\<open>run\<close>. The line \<^verbatim>\<open>Pipeline complete: ...\<close> with the three counters is kept among
  the calls as \<open>Summary\<close>. The result is the exit code.
\<close>

definition run :: "config \<Rightarrow> warehouse \<Rightarrow> file_system \<Rightarrow> (path \<Rightarrow> outside) \<Rightarrow> int io" where
  "run cfg wh fs env =
     try_except
       (io_bind (run_setup wh) (\<lambda>_.
        io_bind (discover (FileDiscoverer (input_directory cfg) (file_pattern cfg)
                   (Some (config_ignore_patterns cfg))) fs) (\<lambda>files.
          if files = [] then ret 0
          else
            io_bind (process_files cfg env files (0, 0, 0))
              (\<lambda>(processed_count, skipped_count, failed_count).
            io_bind (emit (Summary processed_count skipped_count failed_count)) (\<lambda>_.
            ret (if 0 < failed_count then 1 else 0))))))
       (\<lambda>e. ret 2)"

section \<open>Example inputs\<close>

text \<open>A registry with two successful loads of one file, a later failed one, and another file.\<close>

definition w_loaded :: world where
  "w_loaded = \<lparr>registry =
     [\<lparr>file_name = ''a.xlsx'', checksum = ''c1'', processed_at = 10, status = SUCCESS,
        error_message = None, row_count = Some 3\<rparr>,
      \<lparr>file_name = ''a.xlsx'', checksum = ''c2'', processed_at = 30, status = SUCCESS,
        error_message = None, row_count = Some 4\<rparr>,
      \<lparr>file_name = ''a.xlsx'', checksum = ''c3'', processed_at = 40, status = FAILED,
        error_message = Some ''boom'', row_count = None\<rparr>,
      \<lparr>file_name = ''b.xlsx'', checksum = ''c4'', processed_at = 50, status = SUCCESS,
        error_message = None, row_count = Some 1\<rparr>],
     calls = []\<rparr>"


text \<open>The schema \<^verbatim>\<open>[(A, INTEGER), (B, BOOLEAN)]\<close> and a clock that stands still.\<close>

definition schema_AB :: "schema_field list" where
  "schema_AB = [\<lparr>name = ''A'', ftype = ''INTEGER'', mode = ''NULLABLE''\<rparr>,
                \<lparr>name = ''B'', ftype = ''BOOLEAN'', mode = ''NULLABLE''\<rparr>]"

definition noon :: "nat \<Rightarrow> string" where
  "noon i = ''2024-05-01T12:00:00''"

text \<open>
  The results of \<^verbatim>\<open>_process_file\<close> for the files of the loop, in order, each in the
  world the files before it have left.
\<close>

fun file_results :: "config \<Rightarrow> (path \<Rightarrow> outside) \<Rightarrow> path list \<Rightarrow> world \<Rightarrow> (exn + bool) list" where
  "file_results cfg env [] w = []"
| "file_results cfg env (file_path # files) w =
     fst (process_file cfg (env file_path) file_path w) #
     file_results cfg env files (snd (process_file cfg (env file_path) file_path w))"

text \<open>
  A run over a directory with three spreadsheets, a lock file and a directory whose name
  ends in \<^verbatim>\<open>.xlsx\<close>. Everything outside works, every file is new. The rows of
  \<^verbatim>\<open>b.xlsx\<close> hold \<^verbatim>\<open>inf\<close> in the \<^verbatim>\<open>INTEGER\<close> column.
\<close>

definition cfg0 :: config where
  "cfg0 = \<lparr>input_directory = [''in''], file_pattern = ''**/*.xlsx'',
            config_ignore_patterns = [''~$*'', ''.~*'', ''*.tmp'', ''*.temp''],
            schema = schema_AB, checksum_algorithm = ''sha256'', output_format = ''parquet'',
            dry_run = False\<rparr>"

definition wh_ok :: warehouse where
  "wh_ok = \<lparr>get_registry_table = None, create_registry_table = None, get_target_table = None,
             get_target_table_again = None, create_target_table = None\<rparr>"

definition fs3 :: file_system where
  "fs3 = \<lparr>root_exists = True,
           glob_result = Inr [([''in'', ''c.xlsx''], True), ([''in'', ''~$a.xlsx''], True),
                              ([''in'', ''a.xlsx''], True), ([''in'', ''d.xlsx''], False),
                              ([''in'', ''b.xlsx''], True)]\<rparr>"

definition works :: "insert_outcome \<Rightarrow> string \<Rightarrow> raw_row list \<Rightarrow> outside" where
  "works ins csum rows =
     \<lparr>hash_file = Inr csum, query_raises = None, xlsx_rows = Inr rows, row_clock = noon,
      write_file = (\<lambda>data stem. Inr [''tmp'', stem @ ''.parquet'']),
      upload_blob = (\<lambda>local_path. Inr (''gs://bucket/'' @ path_name local_path)),
      load_job = (\<lambda>uri. Inr ''job-1''),
      insert_row = (\<lambda>r. ins), record_time = 100\<rparr>"

definition env3_with :: "insert_outcome \<Rightarrow> path \<Rightarrow> outside" where
  "env3_with ins file_path =
     (if file_path = [''in'', ''b.xlsx'']
      then works ins ''h-b'' [[''A'' \<mapsto> Some ''inf'', ''B'' \<mapsto> Some ''yes'']]
      else works ins (''h-'' @ path_name file_path) [[''A'' \<mapsto> Some [], ''B'' \<mapsto> Some ''yes'']])"

definition env3 :: "path \<Rightarrow> outside" where
  "env3 = env3_with InsertOk"

definition w_new :: world where
  "w_new = \<lparr>registry = [], calls = []\<rparr>"

text \<open>The same, but the registry refuses every insertion.\<close>

definition env3_no_insert :: "path \<Rightarrow> outside" where
  "env3_no_insert = env3_with (InsertErrors ''quota exceeded'')"

text \<open>The same, but \<^verbatim>\<open>b.xlsx\<close> cannot be read when it is hashed.\<close>

definition env3_unreadable :: "path \<Rightarrow> outside" where
  "env3_unreadable file_path =
     (if file_path = [''in'', ''b.xlsx'']
      then (env3 file_path)\<lparr>hash_file := Inl (Exn OSError ''Permission denied'')\<rparr>
      else env3 file_path)"

text \<open>The same configuration in dry-run mode; an empty directory; a warehouse that refuses to
  create the registry table.\<close>

definition cfg_dry :: config where
  "cfg_dry = cfg0\<lparr>dry_run := True\<rparr>"

definition fs_empty :: file_system where
  "fs_empty = \<lparr>root_exists = True, glob_result = Inr []\<rparr>"

definition wh_broken :: warehouse where
  "wh_broken = wh_ok\<lparr>get_registry_table := Some (Exn OtherException ''404 not found''),
                     create_registry_table := Some (Exn OtherException ''403 forbidden'')\<rparr>"

section \<open>Properties of the registry\<close>

lemma rev_sort_key_max:
  assumes "xs \<noteq> []"
  shows "\<exists>r \<in> set xs. take 1 (rev (sort_key f xs)) = [r] \<and> (\<forall>r' \<in> set xs. f r' \<le> f r)"
proof -
  let ?ys = "sort_key f xs"
  have ne: "?ys \<noteq> []" using assms by (metis length_sort list.size(3) length_0_conv)
  have s: "sorted (map f ?ys)" by simp
  have mem: "last ?ys \<in> set xs" using ne by (metis last_in_set set_sort)
  have mx: "\<forall>r' \<in> set xs. f r' \<le> f (last ?ys)"
  proof
    fix r' assume "r' \<in> set xs"
    then have "r' \<in> set ?ys" by simp
    then obtain i where i: "i < length ?ys" "?ys ! i = r'" by (metis in_set_conv_nth)
    have "map f ?ys ! i \<le> map f ?ys ! (length ?ys - 1)"
      using s i ne by (intro sorted_nth_mono) auto
    then show "f r' \<le> f (last ?ys)" using i ne by (simp add: last_conv_nth)
  qed
  have "take 1 (rev ?ys) = [last ?ys]" using ne by (cases ?ys rule: rev_cases) auto
  then show ?thesis using mem mx by blast
qed

lemma select_checksum_empty: "success_rows tbl n = [] \<Longrightarrow> select_checksum tbl n = []"
  by (simp add: select_checksum_def)

lemma select_checksum_latest:
  assumes "success_rows tbl n \<noteq> []"
  shows "\<exists>r \<in> set (success_rows tbl n). select_checksum tbl n = [checksum r] \<and>
           (\<forall>r' \<in> set (success_rows tbl n). processed_at r' \<le> processed_at r)"
proof -
  obtain r where r: "r \<in> set (success_rows tbl n)"
      "take 1 (rev (sort_key processed_at (success_rows tbl n))) = [r]"
      "\<forall>r' \<in> set (success_rows tbl n). processed_at r' \<le> processed_at r"
    using rev_sort_key_max [OF assms, of processed_at] by blast
  have "select_checksum tbl n = map checksum (take 1 (rev (sort_key processed_at (success_rows tbl n))))"
    by (simp add: select_checksum_def take_map)
  then show ?thesis using r by auto
qed

lemma get_checksum_eval:
  "get_checksum q n w =
     (case q of
        Some e \<Rightarrow> (Inr None, w\<lparr>calls := calls w @ [Query n,
            Logged WARNING (''Failed to query checksum for '' @ n @ '': '' @ str_exn e)]\<rparr>)
      | None \<Rightarrow> (Inr (case select_checksum (registry w) n of [] \<Rightarrow> None | c # _ \<Rightarrow> Some c),
            w\<lparr>calls := calls w @ [Query n]\<rparr>))"
  by (simp add: get_checksum_def try_except_def io_bind_def client_query_def external_def
      ret_def emit_def split: option.splits)

lemma should_process_eval:
  "should_process q p c w =
     (case q of
        Some e \<Rightarrow> (Inr True, w\<lparr>calls := calls w @ [Query (path_name p),
            Logged WARNING (''Failed to query checksum for '' @ path_name p @ '': '' @ str_exn e)]\<rparr>)
      | None \<Rightarrow> (Inr (select_checksum (registry w) (path_name p) = [] \<or>
                     hd (select_checksum (registry w) (path_name p)) \<noteq> c),
            w\<lparr>calls := calls w @ [Query (path_name p)]\<rparr>))"
  by (simp add: should_process_def io_bind_def get_checksum_eval ret_def
      split: option.splits list.splits)

lemma record_processing_eval:
  "record_processing ins utcnow fname csum st err rows w =
     (let row = \<lparr>file_name = fname, checksum = csum, processed_at = utcnow, status = st,
                 error_message = err, row_count = rows\<rparr> in
      (Inr (), case ins row of
         InsertOk \<Rightarrow> w\<lparr>registry := registry w @ [row], calls := calls w @ [InsertRow row]\<rparr>
       | InsertErrors errs \<Rightarrow> w\<lparr>calls := calls w @ [InsertRow row,
            Logged ERROR (''Failed to record processing state: '' @ errs)]\<rparr>
       | InsertRaises e \<Rightarrow> w\<lparr>calls := calls w @ [InsertRow row,
            Logged ERROR (''Failed to insert registry row: '' @ str_exn e)]\<rparr>))"
  by (simp add: record_processing_def Let_def try_except_def io_bind_def insert_rows_json_def
      emit_def ret_def split: insert_outcome.splits)

subsection \<open>Reading the registry\<close>

text \<open>
  C5. \<^verbatim>\<open>get_checksum\<close> never raises and leaves the registry as it is. When the query
  runs, it returns the checksum of a SUCCESS row of that name whose \<^verbatim>\<open>processed_at\<close>
  is the greatest, and nothing when the name has no SUCCESS row. When the query raises, it
  returns nothing, and then \<^verbatim>\<open>should_process\<close> answers true: the file is processed
  again rather than skipped.
\<close>

theorem get_checksum_most_recent_success:
  "\<exists>v w'. get_checksum q n w = (Inr v, w') \<and> registry w' = registry w \<and>
     (q \<noteq> None \<longrightarrow> v = None \<and>
        (\<forall>p c. path_name p = n \<longrightarrow> fst (should_process q p c w) = Inr True)) \<and>
     (q = None \<longrightarrow> success_rows (registry w) n = [] \<longrightarrow> v = None) \<and>
     (q = None \<longrightarrow> success_rows (registry w) n \<noteq> [] \<longrightarrow>
        (\<exists>r \<in> set (success_rows (registry w) n). v = Some (checksum r) \<and>
           (\<forall>r' \<in> set (success_rows (registry w) n). processed_at r' \<le> processed_at r)))"
proof (cases q)
  case (Some e)
  then show ?thesis by (simp add: get_checksum_eval should_process_eval)
next
  case None
  show ?thesis
  proof (cases "success_rows (registry w) n = []")
    case True
    with None show ?thesis by (simp add: get_checksum_eval select_checksum_empty)
  next
    case False
    from select_checksum_latest [OF False] obtain r where
      r: "r \<in> set (success_rows (registry w) n)" "select_checksum (registry w) n = [checksum r]"
         "\<forall>r' \<in> set (success_rows (registry w) n). processed_at r' \<le> processed_at r"
      by blast
    with None False show ?thesis by (auto simp add: get_checksum_eval)
  qed
qed

theorem get_checksum_most_recent_success_witness:
  "success_rows (registry w_loaded) ''a.xlsx'' \<noteq> [] \<and>
   fst (get_checksum None ''a.xlsx'' w_loaded) = Inr (Some ''c2'') \<and>
   fst (get_checksum None ''zzz.xlsx'' w_loaded) = Inr None \<and>
   fst (get_checksum (Some (Exn OtherException ''timeout'')) ''a.xlsx'' w_loaded) = Inr None \<and>
   fst (should_process (Some (Exn OtherException ''timeout'')) [''in'', ''a.xlsx''] ''c2'' w_loaded) = Inr True"
  using get_checksum_most_recent_success [of None "''a.xlsx''" w_loaded]
    get_checksum_most_recent_success [of None "''zzz.xlsx''" w_loaded]
    get_checksum_most_recent_success [of "Some (Exn OtherException ''timeout'')" "''a.xlsx''" w_loaded]
  by (auto simp: w_loaded_def success_rows_def path_name_def)

subsection \<open>Writing the registry\<close>

text \<open>
  C6. \<^verbatim>\<open>record_processing\<close> never raises, whatever the insertion does. When the
  insertion goes through, the row is appended to the registry; when it returns row errors
  or raises, the registry is unchanged and the only trace is one logged error.
\<close>

theorem record_processing_never_raises:
  "\<exists>w'. record_processing ins utcnow fname csum st err rows w = (Inr (), w') \<and>
     (ins \<lparr>file_name = fname, checksum = csum, processed_at = utcnow, status = st,
            error_message = err, row_count = rows\<rparr> = InsertOk \<longrightarrow>
        registry w' = registry w @ [\<lparr>file_name = fname, checksum = csum, processed_at = utcnow,
            status = st, error_message = err, row_count = rows\<rparr>]) \<and>
     (ins \<lparr>file_name = fname, checksum = csum, processed_at = utcnow, status = st,
            error_message = err, row_count = rows\<rparr> \<noteq> InsertOk \<longrightarrow>
        registry w' = registry w \<and>
        (\<exists>msg. calls w' = calls w @
           [InsertRow \<lparr>file_name = fname, checksum = csum, processed_at = utcnow, status = st,
              error_message = err, row_count = rows\<rparr>, Logged ERROR msg]))"
  by (cases "ins \<lparr>file_name = fname, checksum = csum, processed_at = utcnow, status = st,
            error_message = err, row_count = rows\<rparr>")
     (simp_all add: record_processing_eval Let_def)

theorem record_processing_never_raises_witness:
  "fst (record_processing (\<lambda>r. InsertRaises (Exn OtherException ''503'')) 60 ''a.xlsx'' ''c5''
          SUCCESS None (Some 2) w_loaded) = Inr () \<and>
   registry (snd (record_processing (\<lambda>r. InsertRaises (Exn OtherException ''503'')) 60 ''a.xlsx''
          ''c5'' SUCCESS None (Some 2) w_loaded)) = registry w_loaded \<and>
   fst (record_processing (\<lambda>r. InsertErrors ''invalid'') 60 ''a.xlsx'' ''c5''
          FAILED (Some ''boom'') None w_loaded) = Inr () \<and>
   registry (snd (record_processing (\<lambda>r. InsertErrors ''invalid'') 60 ''a.xlsx'' ''c5''
          FAILED (Some ''boom'') None w_loaded)) = registry w_loaded \<and>
   length (registry (snd (record_processing (\<lambda>r. InsertOk) 60 ''a.xlsx'' ''c5''
          SUCCESS None (Some 2) w_loaded))) = 5"
  using
    record_processing_never_raises [of "\<lambda>r. InsertRaises (Exn OtherException ''503'')" 60
      "''a.xlsx''" "''c5''" SUCCESS None "Some 2" w_loaded]
    record_processing_never_raises [of "\<lambda>r. InsertErrors ''invalid''" 60
      "''a.xlsx''" "''c5''" FAILED "Some ''boom''" None w_loaded]
    record_processing_never_raises [of "\<lambda>r. InsertOk" 60
      "''a.xlsx''" "''c5''" SUCCESS None "Some 2" w_loaded]
  by (auto simp: w_loaded_def)

subsection \<open>The decision\<close>

text \<open>
  C1, as stated, fails when the registry query raises: \<^verbatim>\<open>get_checksum\<close> then answers
  "absent", so \<^verbatim>\<open>should_process\<close> returns true although a SUCCESS row with the very
  same checksum is the latest one of that name.
\<close>

theorem should_process_query_failure_counterexample:
  "success_rows (registry w_loaded) ''a.xlsx'' \<noteq> [] \<and>
   select_checksum (registry w_loaded) ''a.xlsx'' = [''c2''] \<and>
   fst (should_process (Some (Exn OtherException ''timeout'')) [''in'', ''a.xlsx''] ''c2'' w_loaded)
     = Inr True \<and>
   \<not> (\<forall>q p c w. fst (should_process q p c w) =
          Inr (success_rows (registry w) (path_name p) = [] \<or>
               select_checksum (registry w) (path_name p) \<noteq> [c]))"
proof -
  have a: "success_rows (registry w_loaded) ''a.xlsx'' \<noteq> []"
    by (simp add: w_loaded_def success_rows_def)
  have b: "select_checksum (registry w_loaded) ''a.xlsx'' = [''c2'']"
    by (simp add: w_loaded_def success_rows_def select_checksum_def)
  have c: "fst (should_process (Some (Exn OtherException ''timeout'')) [''in'', ''a.xlsx''] ''c2'' w_loaded)
     = Inr True"
    by (simp add: should_process_eval)
  have n: "path_name [''in'', ''a.xlsx''] = ''a.xlsx''"
    by (simp add: path_name_def)
  have "\<not> (\<forall>q p c w. fst (should_process q p c w) =
          Inr (success_rows (registry w) (path_name p) = [] \<or>
               select_checksum (registry w) (path_name p) \<noteq> [c]))"
  proof
    assume "\<forall>q p c w. fst (should_process q p c w) =
          Inr (success_rows (registry w) (path_name p) = [] \<or>
               select_checksum (registry w) (path_name p) \<noteq> [c])"
    then have "fst (should_process (Some (Exn OtherException ''timeout'')) [''in'', ''a.xlsx''] ''c2'' w_loaded)
        = Inr (success_rows (registry w_loaded) (path_name [''in'', ''a.xlsx'']) = [] \<or>
               select_checksum (registry w_loaded) (path_name [''in'', ''a.xlsx'']) \<noteq> [''c2''])"
      by blast
    with a b c n show False by simp
  qed
  with a b c show ?thesis by blast
qed

text \<open>
  C1, amended. When the registry query raises, \<^verbatim>\<open>should_process\<close> returns true. When
  it runs, \<^verbatim>\<open>should_process\<close> returns true if and only if the name has no SUCCESS row,
  or the checksum of the SUCCESS row the query gives (one whose \<^verbatim>\<open>processed_at\<close> is the
  greatest) differs from the current one. And once a SUCCESS row has gone into the registry
  with a checksum, at a time later than that of every earlier SUCCESS row of the name,
  \<^verbatim>\<open>should_process\<close> with the same checksum returns false whenever its query runs.
\<close>

theorem should_process_decision:
  "(q \<noteq> None \<longrightarrow> fst (should_process q p c w) = Inr True) \<and>
   (q = None \<longrightarrow>
      fst (should_process q p c w) =
        Inr (success_rows (registry w) (path_name p) = [] \<or>
             select_checksum (registry w) (path_name p) \<noteq> [c]) \<and>
      (success_rows (registry w) (path_name p) \<noteq> [] \<longrightarrow>
         (\<exists>r \<in> set (success_rows (registry w) (path_name p)).
            select_checksum (registry w) (path_name p) = [checksum r] \<and>
            (\<forall>r' \<in> set (success_rows (registry w) (path_name p)).
               processed_at r' \<le> processed_at r)))) \<and>
   (ins \<lparr>file_name = path_name p, checksum = c, processed_at = utcnow, status = SUCCESS,
          error_message = None, row_count = rows\<rparr> = InsertOk \<longrightarrow>
    (\<forall>r \<in> set (success_rows (registry w) (path_name p)). processed_at r < utcnow) \<longrightarrow>
      fst (should_process None p c
        (snd (record_processing ins utcnow (path_name p) c SUCCESS None rows w))) = Inr False)"
proof (intro conjI impI)
  assume "q \<noteq> None"
  then show "fst (should_process q p c w) = Inr True"
    by (auto simp: should_process_eval)
next
  assume q: "q = None"
  show "fst (should_process q p c w) =
        Inr (success_rows (registry w) (path_name p) = [] \<or>
             select_checksum (registry w) (path_name p) \<noteq> [c])"
  proof (cases "success_rows (registry w) (path_name p) = []")
    case True
    then show ?thesis using q by (simp add: should_process_eval select_checksum_empty)
  next
    case False
    from select_checksum_latest [OF False] obtain r :: file_record where
      "select_checksum (registry w) (path_name p) = [checksum r]" by blast
    then show ?thesis using q False by (simp add: should_process_eval)
  qed
next
  assume "success_rows (registry w) (path_name p) \<noteq> []"
  then show "\<exists>r \<in> set (success_rows (registry w) (path_name p)).
            select_checksum (registry w) (path_name p) = [checksum r] \<and>
            (\<forall>r' \<in> set (success_rows (registry w) (path_name p)).
               processed_at r' \<le> processed_at r)"
    by (rule select_checksum_latest)
next
  let ?row = "\<lparr>file_name = path_name p, checksum = c, processed_at = utcnow, status = SUCCESS,
          error_message = None, row_count = rows\<rparr>"
  let ?w1 = "snd (record_processing ins utcnow (path_name p) c SUCCESS None rows w)"
  assume ok: "ins ?row = InsertOk"
    and late: "\<forall>r \<in> set (success_rows (registry w) (path_name p)). processed_at r < utcnow"
  have reg: "registry ?w1 = registry w @ [?row]"
    using ok by (simp add: record_processing_eval Let_def)
  have rows1: "success_rows (registry ?w1) (path_name p) =
      success_rows (registry w) (path_name p) @ [?row]"
    by (simp add: reg success_rows_def)
  then have ne: "success_rows (registry ?w1) (path_name p) \<noteq> []" by simp
  from select_checksum_latest [OF ne] obtain r where
    r: "r \<in> set (success_rows (registry ?w1) (path_name p))"
       "select_checksum (registry ?w1) (path_name p) = [checksum r]"
       "\<forall>r' \<in> set (success_rows (registry ?w1) (path_name p)). processed_at r' \<le> processed_at r"
    by blast
  have "r = ?row"
  proof (rule ccontr)
    assume "r \<noteq> ?row"
    with r(1) rows1 have "r \<in> set (success_rows (registry w) (path_name p))" by simp
    with late have "processed_at r < utcnow" by blast
    moreover have "processed_at ?row \<le> processed_at r" using r(3) rows1 by simp
    ultimately show False by simp
  qed
  with r(2) have "select_checksum (registry ?w1) (path_name p) = [c]" by simp
  then show "fst (should_process None p c ?w1) = Inr False"
    by (simp add: should_process_eval)
qed

theorem should_process_decision_witness:
  "fst (should_process None [''in'', ''a.xlsx''] ''c2'' w_loaded) = Inr False \<and>
   fst (should_process None [''in'', ''a.xlsx''] ''c9'' w_loaded) = Inr True \<and>
   fst (should_process None [''in'', ''new.xlsx''] ''c2'' w_loaded) = Inr True \<and>
   fst (should_process (Some (Exn OtherException ''timeout'')) [''in'', ''a.xlsx''] ''c2'' w_loaded)
     = Inr True \<and>
   fst (should_process None [''in'', ''a.xlsx''] ''c9''
     (snd (record_processing (\<lambda>r. InsertOk) 60 ''a.xlsx'' ''c9'' SUCCESS None (Some 7) w_loaded)))
     = Inr False"
proof -
  have n: "path_name [''in'', ''a.xlsx''] = ''a.xlsx''" "path_name [''in'', ''new.xlsx''] = ''new.xlsx''"
    by (simp_all add: path_name_def)
  have s: "select_checksum (registry w_loaded) ''a.xlsx'' = [''c2'']"
    "success_rows (registry w_loaded) ''new.xlsx'' = []"
    "success_rows (registry w_loaded) ''a.xlsx'' \<noteq> []"
    "\<forall>r \<in> set (success_rows (registry w_loaded) ''a.xlsx''). processed_at r < 60"
    by (simp_all add: w_loaded_def success_rows_def select_checksum_def)
  show ?thesis
    using should_process_decision [of None "[''in'', ''a.xlsx'']" "''c2''" w_loaded "\<lambda>r. InsertOk" 60 "Some 7"]
      should_process_decision [of None "[''in'', ''a.xlsx'']" "''c9''" w_loaded "\<lambda>r. InsertOk" 60 "Some 7"]
      should_process_decision [of None "[''in'', ''new.xlsx'']" "''c2''" w_loaded "\<lambda>r. InsertOk" 60 "Some 7"]
      should_process_decision [of "Some (Exn OtherException ''timeout'')" "[''in'', ''a.xlsx'']"
        "''c2''" w_loaded "\<lambda>r. InsertOk" 60 "Some 7"]
    by (simp add: n s)
qed

section \<open>Properties of normalization\<close>

lemma floor_rat_numeral: "\<lfloor>numeral a / numeral b :: rat\<rfloor> = numeral a div numeral b"
  using floor_divide_of_int_eq [of "numeral a" "numeral b", where ?'a = rat] by simp

lemma py_float_inf: "py_float ''inf'' = Inr (FInf False)"
  by (simp add: py_float_def strip_def is_space_def lower_def lower_char_def)

lemma py_float_Infinity: "py_float ''Infinity'' = Inr (FInf False)"
  by (simp add: py_float_def strip_def is_space_def lower_def lower_char_def)

lemma floatnumber_3_7: "floatnumber ''3.7'' = Some (37 / 10)"
  by (simp add: floatnumber_def mantissa_def digitpart_def is_digit_def nat_of_digits_def
      digit_val_def pow10_def)

lemma floor_log2_3_7: "floor_log2 (37 / 10) = 1"
  by (simp add: floor_log2_def floor_rat_numeral bit_length.simps)

lemma round_double_3_7: "round_double (37 / 10) = FFin (4165829655317709 / 1125899906842624)"
  by (simp add: round_double_def floor_log2_3_7 round_half_even_def pow2_def
      Let_def floor_rat_numeral)

lemma py_float_3_7: "py_float ''3.7'' = Inr (FFin (4165829655317709 / 1125899906842624))"
  by (simp add: py_float_def strip_def is_space_def lower_def lower_char_def
      floatnumber_3_7 round_double_3_7)

lemma py_float_error_class: "py_float s = Inl e \<Longrightarrow> exn_class_of e = ValueError"
  by (auto simp: py_float_def Let_def split: if_splits option.splits)

lemma cast_value_raises_iff:
  "(\<exists>e. cast_value val t c = Inl e) \<longleftrightarrow>
   (\<exists>v neg. val = Some v \<and> v \<noteq> [] \<and> t = ''INTEGER'' \<and> py_float v = Inr (FInf neg))"
proof (cases val)
  case None
  then show ?thesis by (simp add: cast_value_def)
next
  case (Some v)
  show ?thesis
  proof (cases "py_float v")
    case (Inl e)
    then have "exn_class_of e = ValueError" by (rule py_float_error_class)
    with Some Inl show ?thesis
      by (auto simp: cast_value_def except_value_type_error_def)
  next
    case (Inr f)
    with Some show ?thesis
      by (cases f) (auto simp: cast_value_def except_value_type_error_def)
  qed
qed

lemma cast_value_cases:
  "v \<noteq> [] \<Longrightarrow> cast_value (Some v) ''STRING'' c = Inr (PStr v)"
  "v \<noteq> [] \<Longrightarrow> cast_value (Some v) ''DATE'' c = Inr (PStr v)"
  "v \<noteq> [] \<Longrightarrow> cast_value (Some v) ''TIMESTAMP'' c = Inr (PStr v)"
  "v \<noteq> [] \<Longrightarrow> cast_value (Some v) ''BOOLEAN'' c =
      Inr (PBool (lower v \<in> {''true'', ''1'', ''yes'', ''y''}))"
  "cast_value (Some []) t c = Inr PNone"
  "cast_value None t c = Inr PNone"
  by (simp_all add: cast_value_def except_value_type_error_def)

lemma cast_value_float:
  "v \<noteq> [] \<Longrightarrow> cast_value (Some v) ''FLOAT'' c =
     Inr (case py_float v of Inl e \<Rightarrow> PNone | Inr f \<Rightarrow> PFloat f)"
  by (auto simp: cast_value_def except_value_type_error_def dest: py_float_error_class
      split: sum.splits)

lemma cast_value_integer:
  "v \<noteq> [] \<Longrightarrow> cast_value (Some v) ''INTEGER'' c =
     (case py_float v of
        Inl e \<Rightarrow> Inr PNone
      | Inr FNan \<Rightarrow> Inr PNone
      | Inr (FInf neg) \<Rightarrow> Inl (Exn OverflowError ''cannot convert float infinity to integer'')
      | Inr (FFin q) \<Rightarrow> Inr (PInt (if 0 \<le> q then \<lfloor>q\<rfloor> else \<lceil>q\<rceil>)))"
  by (auto simp: cast_value_def except_value_type_error_def dest: py_float_error_class
      split: sum.splits pyfloat.splits)

lemma keys_dict_set:
  "map fst (dict_set kvs k v) = (if k \<in> set (map fst kvs) then map fst kvs else map fst kvs @ [k])"
  by (induction kvs k v rule: dict_set.induct) auto

lemma set_keys_dict_set: "set (map fst (dict_set kvs k v)) = insert k (set (map fst kvs))"
  by (auto simp: keys_dict_set)

lemma cast_fields_keys_set:
  "cast_fields fs row acc = Inr r \<Longrightarrow> set (map fst r) = set (map fst acc) \<union> set (map name fs)"
proof (induction fs arbitrary: acc)
  case Nil
  then show ?case by simp
next
  case (Cons f fs)
  then show ?case
    by (auto simp: set_keys_dict_set split: sum.splits simp del: set_map)
qed

lemma cast_fields_keys_distinct:
  "cast_fields fs row acc = Inr r \<Longrightarrow> distinct (map fst acc @ map name fs) \<Longrightarrow>
     map fst r = map fst acc @ map name fs"
proof (induction fs arbitrary: acc)
  case Nil
  then show ?case by simp
next
  case (Cons f fs)
  from Cons.prems obtain v where
    v: "cast_value (row_get row (name f)) (ftype f) (name f) = Inr v"
    and r: "cast_fields fs row (dict_set acc (name f) v) = Inr r"
    by (auto split: sum.splits)
  have k: "map fst (dict_set acc (name f) v) = map fst acc @ [name f]"
    using Cons.prems(2) by (auto simp: keys_dict_set)
  have "distinct (map fst (dict_set acc (name f) v) @ map name fs)"
    using Cons.prems(2) by (simp add: k)
  from Cons.IH [OF r this] show ?case by (simp add: k)
qed

lemma normalize_row_keys:
  assumes "normalize_row sch p c ts row = Inr r"
  shows "set (map fst r) = set (map name sch) \<union> set audit_keys"
    and "distinct (map name sch @ audit_keys) \<Longrightarrow> map fst r = map name sch @ audit_keys"
proof -
  from assms obtain r0 where r0: "cast_fields sch row [] = Inr r0"
    and r: "r = dict_set (dict_set (dict_set r0 ''source_file'' (PStr (str_path p)))
                 ''checksum'' (PStr c)) ''ingest_ts'' (PStr ts)"
    by (auto simp: normalize_row_def split: sum.splits)
  have s0: "set (map fst r0) = set (map name sch)"
    using cast_fields_keys_set [OF r0] by simp
  show "set (map fst r) = set (map name sch) \<union> set audit_keys"
    unfolding r set_keys_dict_set s0 by (auto simp: audit_keys_def)
  assume d: "distinct (map name sch @ audit_keys)"
  then have "distinct (map fst [] @ map name sch)" by simp
  from cast_fields_keys_distinct [OF r0 this] have k0: "map fst r0 = map name sch" by simp
  show "map fst r = map name sch @ audit_keys"
    using d unfolding r by (auto simp: keys_dict_set k0 audit_keys_def)
qed

lemma normalize_rows_shape:
  "normalize_rows sch p c clock i data acc = Inr out \<Longrightarrow>
     \<exists>new. out = acc @ new \<and> length new = length data \<and>
       (\<forall>r \<in> set new. \<exists>ts row. normalize_row sch p c ts row = Inr r)"
proof (induction data arbitrary: i acc)
  case Nil
  then show ?case by simp
next
  case (Cons row rows)
  from Cons.prems obtain r where r: "normalize_row sch p c (clock i) row = Inr r"
    and rest: "normalize_rows sch p c clock (Suc i) rows (acc @ [r]) = Inr out"
    by (auto split: sum.splits)
  from Cons.IH [OF rest] obtain new where
    new: "out = (acc @ [r]) @ new" "length new = length rows"
      "\<forall>r \<in> set new. \<exists>ts row. normalize_row sch p c ts row = Inr r"
    by blast
  then have "out = acc @ (r # new)" "length (r # new) = length (row # rows)" by simp_all
  moreover have "\<forall>r' \<in> set (r # new). \<exists>ts row. normalize_row sch p c ts row = Inr r'"
    using r new(3) by auto
  ultimately show ?case by blast
qed

lemma normalize_shape:
  assumes "normalize sch clock data p c = Inr out"
  shows "length out = length data"
    and "\<forall>r \<in> set out. set (map fst r) = set (map name sch) \<union> set audit_keys"
    and "distinct (map name sch @ audit_keys) \<Longrightarrow> \<forall>r \<in> set out. map fst r = map name sch @ audit_keys"
proof -
  have "\<exists>new. out = [] @ new \<and> length new = length data \<and>
       (\<forall>r \<in> set new. \<exists>ts row. normalize_row sch p c ts row = Inr r)"
  proof (cases "data = []")
    case True
    with assms show ?thesis by (simp add: normalize_def)
  next
    case False
    with assms have "normalize_rows sch p c clock 0 data [] = Inr out"
      by (simp add: normalize_def)
    then show ?thesis by (rule normalize_rows_shape)
  qed
  then have len: "length out = length data"
    and rows: "\<forall>r \<in> set out. \<exists>ts row. normalize_row sch p c ts row = Inr r" by auto
  show "length out = length data" by (rule len)
  show "\<forall>r \<in> set out. set (map fst r) = set (map name sch) \<union> set audit_keys"
    using rows normalize_row_keys(1) by blast
  assume "distinct (map name sch @ audit_keys)"
  then show "\<forall>r \<in> set out. map fst r = map name sch @ audit_keys"
    using rows normalize_row_keys(2) by blast
qed

lemma cast_fields_raises_iff:
  "(\<exists>e. cast_fields fs row acc = Inl e) \<longleftrightarrow>
   (\<exists>f \<in> set fs. \<exists>e. cast_value (row_get row (name f)) (ftype f) (name f) = Inl e)"
proof (induction fs arbitrary: acc)
  case Nil
  then show ?case by simp
next
  case (Cons f fs)
  show ?case
  proof (cases "cast_value (row_get row (name f)) (ftype f) (name f)")
    case (Inl e)
    then show ?thesis by auto
  next
    case (Inr v)
    then show ?thesis using Cons.IH [of "dict_set acc (name f) v"] by auto
  qed
qed

lemma normalize_row_raises_iff:
  "(\<exists>e. normalize_row sch p c ts row = Inl e) \<longleftrightarrow> (\<exists>e. cast_fields sch row [] = Inl e)"
  by (auto simp: normalize_row_def split: sum.splits)

lemma normalize_rows_raises_iff:
  "(\<exists>e. normalize_rows sch p c clock i data acc = Inl e) \<longleftrightarrow>
   (\<exists>row \<in> set data. \<exists>e. cast_fields sch row [] = Inl e)"
proof (induction data arbitrary: i acc)
  case Nil
  then show ?case by simp
next
  case (Cons row rows)
  show ?case
  proof (cases "normalize_row sch p c (clock i) row")
    case (Inl e)
    then have "\<exists>e. cast_fields sch row [] = Inl e"
      using normalize_row_raises_iff by blast
    with Inl show ?thesis by auto
  next
    case (Inr r)
    then have "\<not> (\<exists>e. cast_fields sch row [] = Inl e)"
      using normalize_row_raises_iff [of sch p c "clock i" row] by auto
    with Inr show ?thesis using Cons.IH [of "Suc i" "acc @ [r]"] by auto
  qed
qed

text \<open>
  \<^verbatim>\<open>normalize\<close> raises exactly when some cell of an \<^verbatim>\<open>INTEGER\<close> column reads as an
  infinity; otherwise it returns one row per input row, each with the schema's columns and
  the three audit keys, in that order when these names are all different.
\<close>

lemma normalize_raises_iff:
  "(\<exists>e. normalize sch clock data p c = Inl e) \<longleftrightarrow>
   (\<exists>row \<in> set data. \<exists>f \<in> set sch. \<exists>v neg. row_get row (name f) = Some v \<and> v \<noteq> [] \<and>
       ftype f = ''INTEGER'' \<and> py_float v = Inr (FInf neg))"
proof (cases "data = []")
  case True
  then show ?thesis by (simp add: normalize_def)
next
  case False
  then have "(\<exists>e. normalize sch clock data p c = Inl e) \<longleftrightarrow>
      (\<exists>row \<in> set data. \<exists>e. cast_fields sch row [] = Inl e)"
    by (simp add: normalize_def normalize_rows_raises_iff)
  then show ?thesis
    unfolding cast_fields_raises_iff cast_value_raises_iff by blast
qed

subsection \<open>The examples of the specification\<close>

lemma normalize_example_values:
  "normalize schema_AB noon [[''A'' \<mapsto> Some ''3.7'', ''B'' \<mapsto> Some ''yes'']] [''in'', ''f.xlsx''] ''abc'' =
     Inr [[(''A'', PInt 3), (''B'', PBool True), (''source_file'', PStr ''in/f.xlsx''),
           (''checksum'', PStr ''abc''), (''ingest_ts'', PStr ''2024-05-01T12:00:00'')]]"
  by (simp add: normalize_def normalize_row_def schema_AB_def noon_def row_get_def
      cast_value_integer cast_value_cases py_float_3_7 floor_rat_numeral lower_def lower_char_def)

lemma normalize_example_empty:
  "normalize schema_AB noon [[''A'' \<mapsto> Some [], ''B'' \<mapsto> Some []]] [''in'', ''f.xlsx''] ''abc'' =
     Inr [[(''A'', PNone), (''B'', PNone), (''source_file'', PStr ''in/f.xlsx''),
           (''checksum'', PStr ''abc''), (''ingest_ts'', PStr ''2024-05-01T12:00:00'')]]"
  by (simp add: normalize_def normalize_row_def schema_AB_def noon_def row_get_def cast_value_cases)

lemma normalize_example_missing_and_unknown:
  "normalize schema_AB noon [[''B'' \<mapsto> Some ''N'', ''Z'' \<mapsto> Some ''dropped'']] [''in'', ''f.xlsx''] ''abc'' =
     Inr [[(''A'', PNone), (''B'', PBool False), (''source_file'', PStr ''in/f.xlsx''),
           (''checksum'', PStr ''abc''), (''ingest_ts'', PStr ''2024-05-01T12:00:00'')]]"
  by (simp add: normalize_def normalize_row_def schema_AB_def noon_def row_get_def
      cast_value_cases lower_def lower_char_def)

subsection \<open>Where normalization raises\<close>

text \<open>
  C8. The casts are as the claim says, but "never raise" fails: for an \<^verbatim>\<open>INTEGER\<close>
  column, \<^verbatim>\<open>float("inf")\<close> is an infinity, \<^verbatim>\<open>int\<close> of it raises
  \<^verbatim>\<open>OverflowError\<close>, and \<^verbatim>\<open>_cast_value\<close> catches only \<^verbatim>\<open>ValueError\<close> and
  \<^verbatim>\<open>TypeError\<close>. The exception leaves \<^verbatim>\<open>normalize\<close>.
\<close>

theorem cast_value_integer_infinity_raises:
  "cast_value (Some ''inf'') ''INTEGER'' ''A'' =
     Inl (Exn OverflowError ''cannot convert float infinity to integer'') \<and>
   normalize schema_AB noon [[''A'' \<mapsto> Some ''inf'', ''B'' \<mapsto> Some ''yes'']] [''in'', ''f.xlsx''] ''abc'' =
     Inl (Exn OverflowError ''cannot convert float infinity to integer'')"
  by (simp add: normalize_def normalize_row_def schema_AB_def noon_def row_get_def
      cast_value_integer py_float_inf)

text \<open>
  C10. On two rows, the second of which holds \<^verbatim>\<open>Infinity\<close> in an \<^verbatim>\<open>INTEGER\<close>
  column, \<^verbatim>\<open>normalize\<close> returns no rows at all: it raises.
\<close>

theorem normalize_infinity_returns_no_rows:
  "normalize [\<lparr>name = ''A'', ftype = ''INTEGER'', mode = ''NULLABLE''\<rparr>] noon
     [[''A'' \<mapsto> Some []], [''A'' \<mapsto> Some ''Infinity'']] [''in'', ''f.xlsx''] ''abc'' =
     Inl (Exn OverflowError ''cannot convert float infinity to integer'')"
  by (simp add: normalize_def normalize_row_def noon_def row_get_def
      cast_value_integer cast_value_cases py_float_Infinity)

section \<open>Properties of the orchestrator\<close>

lemma calculate_eval:
  "calculate alg hashed p w =
     (if alg \<noteq> ''md5'' \<and> alg \<noteq> ''sha256''
      then (Inl (Exn ValueError (''Unsupported algorithm: '' @ alg)), w)
      else (hashed, w\<lparr>calls := calls w @ [Hash p]\<rparr>))"
  by (cases hashed) (simp_all add: calculate_def raise_def try_except_def external_def)

lemma parse_eval:
  "parse rows p w =
     (case rows of
        Inl e \<Rightarrow> Inl (Exn ValueError (''Failed to parse '' @ str_path p @ '': '' @ str_exn e))
      | Inr data \<Rightarrow> Inr data,
      w\<lparr>calls := calls w @ [ParseXlsx p]\<rparr>)"
  by (cases rows) (simp_all add: parse_def raise_def try_except_def external_def)

lemma serialize_eval:
  "serialize writer data stem w = (writer data stem, w\<lparr>calls := calls w @ [Serialize data stem]\<rparr>)"
  by (cases "writer data stem") (simp_all add: serialize_def raise_def try_except_def external_def)

lemma upload_eval:
  "upload uploader lp w = (uploader lp, w\<lparr>calls := calls w @ [Upload lp]\<rparr>)"
  by (cases "uploader lp") (simp_all add: upload_def raise_def try_except_def external_def)

lemma load_from_gcs_eval:
  "load_from_gcs loader uri w =
     (case loader uri of
        Inl e \<Rightarrow> Inl (Exn RuntimeError (''BigQuery load job failed: '' @ str_exn e))
      | Inr job \<Rightarrow> Inr job,
      w\<lparr>calls := calls w @ [LoadJob uri]\<rparr>)"
  by (cases "loader uri") (simp_all add: load_from_gcs_def raise_def try_except_def external_def)

text \<open>The five stages do not touch the registry, and their result does not depend on the world.\<close>

lemma transform_and_load_registry:
  "registry (snd (transform_and_load cfg out p c w)) = registry w"
  by (simp add: transform_and_load_def io_bind_def parse_eval lift_def serialize_eval upload_eval
      load_from_gcs_eval ret_def split: sum.splits prod.splits)

lemma transform_and_load_result:
  "fst (transform_and_load cfg out p c w) = fst (transform_and_load cfg out p c w0)"
  by (simp add: transform_and_load_def io_bind_def parse_eval lift_def serialize_eval upload_eval
      load_from_gcs_eval ret_def split: sum.splits prod.splits)

lemma transform_and_load_calls:
  "\<exists>cs. calls (snd (transform_and_load cfg out p c w)) = calls w @ cs \<and> (\<forall>r. InsertRow r \<notin> set cs)"
  by (simp add: transform_and_load_def io_bind_def parse_eval lift_def serialize_eval upload_eval
      load_from_gcs_eval ret_def split: sum.splits prod.splits)

lemma should_process_result:
  "registry w = registry w0 \<Longrightarrow> fst (should_process q p c w) = fst (should_process q p c w0)"
  by (simp add: should_process_eval split: option.splits)

lemma should_process_world:
  "snd (should_process q p c w) =
     w\<lparr>calls := calls w @ Query (path_name p) #
        (case q of None \<Rightarrow> []
         | Some e \<Rightarrow> [Logged WARNING (''Failed to query checksum for '' @ path_name p @ '': '' @
             str_exn e)])\<rparr>"
  by (simp add: should_process_eval split: option.splits)

lemma process_files_step:
  "process_files cfg env (p # ps) (pc, sc, fc) w =
     (case process_file cfg (env p) p w of
        (Inr True, w') \<Rightarrow> process_files cfg env ps (Suc pc, sc, fc) w'
      | (Inr False, w') \<Rightarrow> process_files cfg env ps (pc, Suc sc, fc) w'
      | (Inl e, w') \<Rightarrow> process_files cfg env ps (pc, sc, Suc fc) w')"
  by (simp add: io_bind_def try_except_def ret_def split: prod.splits sum.splits bool.splits)


text \<open>The shape of \<^verbatim>\<open>_process_file\<close> once the checksum is there.\<close>

lemma process_file_after_hash:
  assumes "fst (calculate (checksum_algorithm cfg) (hash_file out) p w) = Inr csum"
  shows "process_file cfg out p w =
     (let w1 = w\<lparr>calls := calls w @ [Hash p]\<rparr>;
          w2 = snd (should_process (query_raises out) p csum w1)
      in if fst (should_process (query_raises out) p csum w) = Inr False then (Inr False, w2)
         else if dry_run cfg then (Inr True, w2)
         else (case transform_and_load cfg out p csum w2 of
                 (Inr n, w3) \<Rightarrow>
                   (Inr True, snd (record_processing (insert_row out) (record_time out) (path_name p)
                      csum SUCCESS None (Some n) w3))
               | (Inl e, w3) \<Rightarrow>
                   (Inl e, snd (record_processing (insert_row out) (record_time out) (path_name p)
                      csum FAILED (Some (str_exn e)) None w3))))"
proof -
  from assms have h: "hash_file out = Inr csum"
    and a: "\<not> (checksum_algorithm cfg \<noteq> ''md5'' \<and> checksum_algorithm cfg \<noteq> ''sha256'')"
    by (auto simp: calculate_eval split: if_splits)
  have c: "calculate (checksum_algorithm cfg) (hash_file out) p w =
      (Inr csum, w\<lparr>calls := calls w @ [Hash p]\<rparr>)"
    using h a by (simp add: calculate_eval)
  have r: "fst (should_process (query_raises out) p csum (w\<lparr>calls := calls w @ [Hash p]\<rparr>)) =
      fst (should_process (query_raises out) p csum w)"
    by (simp add: should_process_eval split: option.splits)
  obtain b where b: "fst (should_process (query_raises out) p csum w) = Inr b"
    by (cases "query_raises out") (simp_all add: should_process_eval)
  obtain w2 where w2: "should_process (query_raises out) p csum (w\<lparr>calls := calls w @ [Hash p]\<rparr>) =
      (Inr b, w2)"
    using r b by (metis prod.collapse)
  obtain r w3 where t: "transform_and_load cfg out p csum w2 = (r, w3)"
    by (cases "transform_and_load cfg out p csum w2")
  have rp: "\<And>st err rows. record_processing (insert_row out) (record_time out) (path_name p) csum
        st err rows w3 =
      (Inr (), snd (record_processing (insert_row out) (record_time out) (path_name p) csum
        st err rows w3))"
    by (simp add: record_processing_eval Let_def)
  have w2': "w2 = snd (should_process (query_raises out) p csum (w\<lparr>calls := calls w @ [Hash p]\<rparr>))"
    using w2 by simp
  show ?thesis
  proof (cases r)
    case (Inl e)
    obtain w4 where "record_processing (insert_row out) (record_time out) (path_name p) csum
        FAILED (Some (str_exn e)) None w3 = (Inr (), w4)"
      using rp [of FAILED "Some (str_exn e)" None] by blast
    then show ?thesis
      unfolding process_file_def Let_def
      by (simp add: io_bind_def c w2 b try_except_def ret_def raise_def t Inl w2' [symmetric])
  next
    case (Inr n)
    obtain w4 where "record_processing (insert_row out) (record_time out) (path_name p) csum
        SUCCESS None (Some n) w3 = (Inr (), w4)"
      using rp [of SUCCESS None "Some n"] by blast
    then show ?thesis
      unfolding process_file_def Let_def
      by (simp add: io_bind_def c w2 b try_except_def ret_def raise_def t Inr w2' [symmetric])
  qed
qed

text \<open>
  C7. In dry-run mode, a file whose checksum can be computed and for which
  \<^verbatim>\<open>should_process\<close> answers true is reported as processed and counted so by the loop.
  The only calls made for it are the hashing of the file and the registry query (with its
  warning when the query fails): nothing is parsed, serialized, uploaded, loaded or written
  to the registry, and the registry is as before.
\<close>

theorem dry_run_no_side_effects:
  assumes "dry_run cfg"
    and "fst (calculate (checksum_algorithm cfg) (hash_file (env p)) p w) = Inr csum"
    and "fst (should_process (query_raises (env p)) p csum w) = Inr True"
  shows "\<exists>w'. process_file cfg (env p) p w = (Inr True, w') \<and>
           registry w' = registry w \<and>
           calls w' = calls w @ Hash p # Query (path_name p) #
             (case query_raises (env p) of None \<Rightarrow> []
              | Some e \<Rightarrow> [Logged WARNING (''Failed to query checksum for '' @ path_name p @ '': '' @
                  str_exn e)]) \<and>
           process_files cfg env (p # ps) (pc, sc, fc) w =
             process_files cfg env ps (Suc pc, sc, fc) w'"
proof -
  let ?w' = "snd (should_process (query_raises (env p)) p csum (w\<lparr>calls := calls w @ [Hash p]\<rparr>))"
  have pf: "process_file cfg (env p) p w = (Inr True, ?w')"
    using process_file_after_hash [OF assms(2)] assms(1,3) by (simp add: Let_def)
  have "registry ?w' = registry w" "calls ?w' = calls w @ Hash p # Query (path_name p) #
             (case query_raises (env p) of None \<Rightarrow> []
              | Some e \<Rightarrow> [Logged WARNING (''Failed to query checksum for '' @ path_name p @ '': '' @
                  str_exn e)])"
    by (simp_all add: should_process_world)
  moreover have "process_files cfg env (p # ps) (pc, sc, fc) w =
             process_files cfg env ps (Suc pc, sc, fc) ?w'"
    by (simp only: process_files_step pf) simp
  ultimately show ?thesis using pf by blast
qed

text \<open>
  C4, amended. When computing the checksum of a file raises, \<^verbatim>\<open>_process_file\<close> raises
  that exception, the loop of \<^verbatim>\<open>run\<close> catches it, counts the file as failed and goes on
  with the next file. The registry is unchanged: no entry is written for that file (the
  only call made for it, if any, is the hashing).
\<close>

theorem fingerprint_failure_counted_not_recorded:
  assumes "fst (calculate (checksum_algorithm cfg) (hash_file (env p)) p w) = Inl e"
  shows "\<exists>w'. process_file cfg (env p) p w = (Inl e, w') \<and>
           registry w' = registry w \<and>
           (calls w' = calls w \<or> calls w' = calls w @ [Hash p]) \<and>
           process_files cfg env (p # ps) (pc, sc, fc) w =
             process_files cfg env ps (pc, sc, Suc fc) w'"
proof -
  obtain w' where c: "calculate (checksum_algorithm cfg) (hash_file (env p)) p w = (Inl e, w')"
    using assms by (metis prod.collapse)
  then have w': "registry w' = registry w" "calls w' = calls w \<or> calls w' = calls w @ [Hash p]"
    by (auto simp: calculate_eval split: if_splits)
  have pf: "process_file cfg (env p) p w = (Inl e, w')"
    by (simp add: process_file_def io_bind_def c)
  have "process_files cfg env (p # ps) (pc, sc, fc) w =
             process_files cfg env ps (pc, sc, Suc fc) w'"
    by (simp only: process_files_step pf) simp
  with pf w' show ?thesis by blast
qed

lemma stage_failure_step:
  assumes "fst (calculate (checksum_algorithm cfg) (hash_file (env p)) p w) = Inr csum"
    and "fst (should_process (query_raises (env p)) p csum w) = Inr True"
    and "\<not> dry_run cfg"
    and "fst (transform_and_load cfg (env p) p csum w) = Inl e"
  shows "\<exists>w'. process_file cfg (env p) p w = (Inl e, w') \<and>
           InsertRow \<lparr>file_name = path_name p, checksum = csum, processed_at = record_time (env p),
              status = FAILED, error_message = Some (str_exn e), row_count = None\<rparr> \<in> set (calls w') \<and>
           (insert_row (env p) \<lparr>file_name = path_name p, checksum = csum,
              processed_at = record_time (env p), status = FAILED,
              error_message = Some (str_exn e), row_count = None\<rparr> = InsertOk \<longrightarrow>
            registry w' = registry w @ [\<lparr>file_name = path_name p, checksum = csum,
              processed_at = record_time (env p), status = FAILED,
              error_message = Some (str_exn e), row_count = None\<rparr>]) \<and>
           (insert_row (env p) \<lparr>file_name = path_name p, checksum = csum,
              processed_at = record_time (env p), status = FAILED,
              error_message = Some (str_exn e), row_count = None\<rparr> \<noteq> InsertOk \<longrightarrow>
            registry w' = registry w) \<and>
           process_files cfg env (p # ps) (pc, sc, fc) w =
             process_files cfg env ps (pc, sc, Suc fc) w'"
proof -
  let ?out = "env p"
  let ?row = "\<lparr>file_name = path_name p, checksum = csum, processed_at = record_time ?out,
              status = FAILED, error_message = Some (str_exn e), row_count = None\<rparr>"
  let ?w2 = "snd (should_process (query_raises ?out) p csum (w\<lparr>calls := calls w @ [Hash p]\<rparr>))"
  obtain w3 where t: "transform_and_load cfg ?out p csum ?w2 = (Inl e, w3)"
    using assms(4) transform_and_load_result [of cfg ?out p csum ?w2 w] by (metis prod.collapse)
  have r3: "registry w3 = registry w"
    using transform_and_load_registry [of cfg ?out p csum ?w2] t
    by (simp add: should_process_world)
  let ?w' = "snd (record_processing (insert_row ?out) (record_time ?out) (path_name p)
                      csum FAILED (Some (str_exn e)) None w3)"
  have pf: "process_file cfg ?out p w = (Inl e, ?w')"
    using process_file_after_hash [OF assms(1)] assms(2,3) t by (simp add: Let_def)
  have ins: "InsertRow ?row \<in> set (calls ?w')"
    by (cases "insert_row ?out ?row") (simp_all add: record_processing_eval Let_def)
  have ok: "insert_row ?out ?row = InsertOk \<longrightarrow> registry ?w' = registry w @ [?row]"
    by (simp add: record_processing_eval Let_def r3)
  have nok: "insert_row ?out ?row \<noteq> InsertOk \<longrightarrow> registry ?w' = registry w"
    by (cases "insert_row ?out ?row") (simp_all add: record_processing_eval Let_def r3)
  have "process_files cfg env (p # ps) (pc, sc, fc) w =
             process_files cfg env ps (pc, sc, Suc fc) ?w'"
    by (simp only: process_files_step pf) simp
  with pf ins ok nok show ?thesis by blast
qed


lemma run_setup_eval:
  "run_setup wh w =
     (let after_registry =
        (case get_registry_table wh of
           None \<Rightarrow> (Inr (), [GetRegistryTable])
         | Some _ \<Rightarrow> (outcome_of (create_registry_table wh), [GetRegistryTable, CreateRegistryTable]))
      in case after_registry of
           (Inl e, cs) \<Rightarrow> (Inl e, w\<lparr>calls := calls w @ cs\<rparr>)
         | (Inr _, cs) \<Rightarrow>
             (case get_target_table wh of
                None \<Rightarrow> (Inr (), w\<lparr>calls := calls w @ cs @ [GetTargetTable]\<rparr>)
              | Some _ \<Rightarrow>
                  (case get_target_table_again wh of
                     None \<Rightarrow> (Inr (), w\<lparr>calls := calls w @ cs @ [GetTargetTable, GetTargetTable]\<rparr>)
                   | Some _ \<Rightarrow>
                       (outcome_of (create_target_table wh),
                        w\<lparr>calls := calls w @ cs @ [GetTargetTable, GetTargetTable, CreateTargetTable]\<rparr>))))"
  by (cases "get_registry_table wh"; cases "create_registry_table wh"; cases "get_target_table wh";
      cases "get_target_table_again wh"; cases "create_target_table wh")
     (simp_all add: run_setup_def ensure_registry_exists_def table_exists_def create_table_def
        io_bind_def try_except_def external_def ret_def raise_def)

lemma run_setup_registry: "registry (snd (run_setup wh w)) = registry w"
  by (simp add: run_setup_eval Let_def split: option.splits sum.splits prod.splits)

lemma discover_eval:
  "discover d fs w =
     (if \<not> root_exists fs then (Inr [], w)
      else (case glob_result fs of
              Inl e \<Rightarrow> Inl e
            | Inr entries \<Rightarrow>
                Inr (sort (map fst (filter (\<lambda>(file_path, is_file). is_file \<and> \<not> should_ignore d file_path)
                  entries))),
            w\<lparr>calls := calls w @ [Glob]\<rparr>))"
  by (cases "glob_result fs") (simp_all add: discover_def io_bind_def external_def ret_def)

lemma process_files_never_raises:
  "\<exists>w'. process_files cfg env files (pc, sc, fc) w =
     (Inr (pc + length (filter (\<lambda>r. r = Inr True) (file_results cfg env files w)),
           sc + length (filter (\<lambda>r. r = Inr False) (file_results cfg env files w)),
           fc + length (filter isl (file_results cfg env files w))), w')"
proof (induction files arbitrary: pc sc fc w)
  case Nil
  then show ?case by (simp add: ret_def)
next
  case (Cons p ps)
  obtain r w1 where pf: "process_file cfg (env p) p w = (r, w1)"
    by (cases "process_file cfg (env p) p w")
  show ?case
  proof (cases r)
    case (Inl e)
    with pf Cons.IH [of pc sc "Suc fc" w1] show ?thesis
      by (simp only: process_files_step) (simp add: isl_def)
  next
    case (Inr b)
    show ?thesis
    proof (cases b)
      case True
      with Inr pf Cons.IH [of "Suc pc" sc fc w1] show ?thesis
        by (simp only: process_files_step) (simp add: isl_def)
    next
      case False
      with Inr pf Cons.IH [of pc "Suc sc" fc w1] show ?thesis
        by (simp only: process_files_step) (simp add: isl_def)
    qed
  qed
qed

lemma file_results_length: "length (file_results cfg env files w) = length files"
  by (induction files arbitrary: w) simp_all

lemma run_eval:
  "run cfg wh fs env w =
     (case run_setup wh w of
        (Inl e, w1) \<Rightarrow> (Inr 2, w1)
      | (Inr _, w1) \<Rightarrow>
          (case discover (FileDiscoverer (input_directory cfg) (file_pattern cfg)
                   (Some (config_ignore_patterns cfg))) fs w1 of
             (Inl e, w2) \<Rightarrow> (Inr 2, w2)
           | (Inr files, w2) \<Rightarrow>
               if files = [] then (Inr 0, w2)
               else (case process_files cfg env files (0, 0, 0) w2 of
                       (Inl e, w3) \<Rightarrow> (Inr 2, w3)
                     | (Inr (pc, sc, fc), w3) \<Rightarrow>
                         (Inr (if 0 < fc then 1 else 0),
                          w3\<lparr>calls := calls w3 @ [Summary pc sc fc]\<rparr>))))"
  by (simp add: run_def try_except_def io_bind_def ret_def emit_def
      split: prod.splits sum.splits)


lemma path_facts:
  "path_name [''in'', ''a.xlsx''] = ''a.xlsx''" "path_stem [''in'', ''a.xlsx''] = ''a''"
  "path_name [''in'', ''b.xlsx''] = ''b.xlsx''" "path_stem [''in'', ''b.xlsx''] = ''b''"
  "path_name [''in'', ''c.xlsx''] = ''c.xlsx''" "path_stem [''in'', ''c.xlsx''] = ''c''"
  by (simp_all add: path_name_def path_stem_def)

lemma normalize_good_row:
  "normalize schema_AB noon [[''A'' \<mapsto> Some [], ''B'' \<mapsto> Some ''yes'']] p h =
     Inr [[(''A'', PNone), (''B'', PBool True), (''source_file'', PStr (str_path p)),
           (''checksum'', PStr h), (''ingest_ts'', PStr ''2024-05-01T12:00:00'')]]"
  by (simp add: normalize_def normalize_row_def schema_AB_def noon_def row_get_def
      cast_value_cases lower_def lower_char_def)

lemma normalize_inf_row:
  "normalize schema_AB noon [[''A'' \<mapsto> Some ''inf'', ''B'' \<mapsto> Some ''yes'']] p h =
     Inl (Exn OverflowError ''cannot convert float infinity to integer'')"
  by (simp add: normalize_def normalize_row_def schema_AB_def noon_def row_get_def
      cast_value_integer py_float_inf)

lemma transform_and_load_works:
  "transform_and_load cfg (works ins h rows) p h w =
     (case normalize (schema cfg) noon rows p h of
        Inl e \<Rightarrow> (Inl e, w\<lparr>calls := calls w @ [ParseXlsx p]\<rparr>)
      | Inr dn \<Rightarrow>
          (Inr (length dn),
           w\<lparr>calls := calls w @ [ParseXlsx p, Serialize dn (path_stem p),
              Upload [''tmp'', path_stem p @ ''.parquet''],
              LoadJob (''gs://bucket/'' @ path_stem p @ ''.parquet'')]\<rparr>))"
  by (simp add: transform_and_load_def io_bind_def parse_eval lift_def serialize_eval upload_eval
      load_from_gcs_eval ret_def works_def path_name_def split: sum.splits)

lemma process_file_works:
  assumes "success_rows (registry w) (path_name p) = []"
  shows "process_file cfg0 (works ins h rows) p w =
     (case normalize schema_AB noon rows p h of
        Inl e \<Rightarrow>
          (Inl e,
           snd (record_processing (\<lambda>r. ins) 100 (path_name p) h FAILED (Some (str_exn e)) None
             (w\<lparr>calls := calls w @ [Hash p, Query (path_name p), ParseXlsx p]\<rparr>)))
      | Inr dn \<Rightarrow>
          (Inr True,
           snd (record_processing (\<lambda>r. ins) 100 (path_name p) h SUCCESS None (Some (length dn))
             (w\<lparr>calls := calls w @ [Hash p, Query (path_name p), ParseXlsx p,
                Serialize dn (path_stem p), Upload [''tmp'', path_stem p @ ''.parquet''],
                LoadJob (''gs://bucket/'' @ path_stem p @ ''.parquet'')]\<rparr>))))"
proof -
  have h: "fst (calculate (checksum_algorithm cfg0) (hash_file (works ins h rows)) p w) = Inr h"
    by (simp add: calculate_eval cfg0_def works_def)
  have sp: "fst (should_process None p h w) = Inr True"
    using assms by (simp add: should_process_eval select_checksum_empty)
  have q: "query_raises (works ins h rows) = None" "\<not> dry_run cfg0"
    "insert_row (works ins h rows) = (\<lambda>r. ins)" "record_time (works ins h rows) = 100"
    "schema cfg0 = schema_AB"
    by (simp_all add: works_def cfg0_def)
  show ?thesis
    unfolding process_file_after_hash [OF h]
    by (simp add: sp q should_process_world transform_and_load_works Let_def split: sum.splits)
qed

lemma process_file_works_dry:
  assumes "success_rows (registry w) (path_name p) = []"
  shows "process_file cfg_dry (works ins h rows) p w =
     (Inr True, w\<lparr>calls := calls w @ [Hash p, Query (path_name p)]\<rparr>)"
proof -
  have h: "fst (calculate (checksum_algorithm cfg_dry) (hash_file (works ins h rows)) p w) = Inr h"
    by (simp add: calculate_eval cfg_dry_def cfg0_def works_def)
  have sp: "fst (should_process None p h w) = Inr True"
    using assms by (simp add: should_process_eval select_checksum_empty)
  have q: "query_raises (works ins h rows) = None" "dry_run cfg_dry"
    by (simp_all add: works_def cfg_dry_def)
  show ?thesis
    unfolding process_file_after_hash [OF h]
    by (simp add: sp q should_process_world Let_def)
qed

lemma process_file_unreadable:
  assumes "hash_file out = Inl e"
  shows "process_file cfg0 out p w = (Inl e, w\<lparr>calls := calls w @ [Hash p]\<rparr>)"
  using assms by (simp add: process_file_def io_bind_def calculate_eval cfg0_def)

lemma run_setup_ok: "run_setup wh_ok w = (Inr (), w\<lparr>calls := calls w @ [GetRegistryTable, GetTargetTable]\<rparr>)"
  by (simp add: run_setup_eval wh_ok_def)

section \<open>Properties of discovery\<close>

lemma glob_match_star: "glob_match [Star] s"
  by (induction s) simp_all

lemma glob_match_lits: "glob_match (map Lit xs) s \<longleftrightarrow> s = xs"
proof (induction xs arbitrary: s)
  case Nil
  then show ?case by simp
next
  case (Cons x xs)
  then show ?case by (cases s) auto
qed

lemma glob_match_lits_star: "glob_match (map Lit xs @ [Star]) s \<longleftrightarrow> prefix xs s"
proof (induction xs arbitrary: s)
  case Nil
  then show ?case by (simp add: glob_match_star)
next
  case (Cons x xs)
  then show ?case by (cases s) auto
qed

lemma glob_match_star_lits: "glob_match (Star # map Lit xs) s \<longleftrightarrow> suffix xs s"
proof (induction s)
  case Nil
  then show ?case by (auto simp: glob_match_lits)
next
  case (Cons c s)
  then show ?case by (auto simp: glob_match_lits suffix_Cons)
qed

lemma translate_defaults:
  "translate ''~$*'' = map Lit ''~$'' @ [Star]"
  "translate ''.~*'' = map Lit ''.~'' @ [Star]"
  "translate ''*.tmp'' = Star # map Lit ''.tmp''"
  "translate ''*.temp'' = Star # map Lit ''.temp''"
  by simp_all

lemma fnmatch_defaults:
  "fnmatch n ''~$*'' \<longleftrightarrow> prefix ''~$'' n"
  "fnmatch n ''.~*'' \<longleftrightarrow> prefix ''.~'' n"
  "fnmatch n ''*.tmp'' \<longleftrightarrow> suffix ''.tmp'' n"
  "fnmatch n ''*.temp'' \<longleftrightarrow> suffix ''.temp'' n"
  unfolding fnmatch_def translate_defaults
  by (rule glob_match_lits_star glob_match_star_lits)+

lemma should_ignore_defaults:
  "ignore_patterns d = default_ignore_patterns \<Longrightarrow>
   should_ignore d p \<longleftrightarrow>
     prefix ''~$'' (path_name p) \<or> prefix ''.~'' (path_name p) \<or>
     suffix ''.tmp'' (path_name p) \<or> suffix ''.temp'' (path_name p)"
  by (simp add: should_ignore_def default_ignore_patterns_def fnmatch_defaults del: translate.simps)

lemma should_ignore_iff:
  "should_ignore d p \<longleftrightarrow> (\<exists>pat \<in> set (ignore_patterns d). fnmatch (path_name p) pat)"
  by (simp add: should_ignore_def list_ex_iff)


lemma discoverer_cfg0:
  "ignore_patterns (FileDiscoverer (input_directory cfg0) (file_pattern cfg0)
      (Some (config_ignore_patterns cfg0))) = default_ignore_patterns"
  by (simp add: FileDiscoverer_def cfg0_def default_ignore_patterns_def)

lemma discover_fs3:
  "discover (FileDiscoverer (input_directory cfg0) (file_pattern cfg0)
      (Some (config_ignore_patterns cfg0))) fs3 w =
     (Inr [[''in'', ''a.xlsx''], [''in'', ''b.xlsx''], [''in'', ''c.xlsx'']],
      w\<lparr>calls := calls w @ [Glob]\<rparr>)"
  by (simp add: discover_eval fs3_def should_ignore_defaults [OF discoverer_cfg0] path_name_def
      suffix_to_prefix)

text \<open>
  C9. When the root exists and the glob yields its entries, \<^verbatim>\<open>discover\<close> returns, in
  sorted order, exactly the entries that are files and whose name matches no ignore
  pattern. With the default patterns, a name is ignored exactly when it starts with
  \<^verbatim>\<open>~$\<close> or \<^verbatim>\<open>.~\<close> or ends with \<^verbatim>\<open>.tmp\<close> or \<^verbatim>\<open>.temp\<close>.
\<close>

theorem discover_sorted_without_ignored:
  assumes "root_exists fs" and "glob_result fs = Inr entries"
  shows "\<exists>found. discover d fs w = (Inr found, w\<lparr>calls := calls w @ [Glob]\<rparr>) \<and>
           sorted found \<and>
           set found = {p. (p, True) \<in> set entries \<and>
                           \<not> (\<exists>pat \<in> set (ignore_patterns d). fnmatch (path_name p) pat)} \<and>
           length found =
             length (filter (\<lambda>(p, is_file). is_file \<and> \<not> should_ignore d p) entries) \<and>
           (ignore_patterns d = default_ignore_patterns \<longrightarrow>
              (\<forall>p. should_ignore d p \<longleftrightarrow>
                 prefix ''~$'' (path_name p) \<or> prefix ''.~'' (path_name p) \<or>
                 suffix ''.tmp'' (path_name p) \<or> suffix ''.temp'' (path_name p)))"
proof -
  let ?kept = "filter (\<lambda>(p, is_file). is_file \<and> \<not> should_ignore d p) entries"
  let ?found = "sort (map fst ?kept)"
  have d: "discover d fs w = (Inr ?found, w\<lparr>calls := calls w @ [Glob]\<rparr>)"
    using assms by (simp add: discover_eval)
  have s: "sorted ?found" by simp
  have m: "set ?found = {p. (p, True) \<in> set entries \<and>
                           \<not> (\<exists>pat \<in> set (ignore_patterns d). fnmatch (path_name p) pat)}"
    by (auto simp: should_ignore_iff image_iff)
  have l: "length ?found = length ?kept" by simp
  show ?thesis
    using d s m l should_ignore_defaults by blast
qed

theorem discover_sorted_without_ignored_witness:
  "root_exists fs3 \<and>
   fst (discover (FileDiscoverer [''in''] ''**/*.xlsx'' None) fs3 w_new) =
     Inr [[''in'', ''a.xlsx''], [''in'', ''b.xlsx''], [''in'', ''c.xlsx'']] \<and>
   should_ignore (FileDiscoverer [''in''] ''**/*.xlsx'' None) [''in'', ''~$report.xlsx''] \<and>
   \<not> should_ignore (FileDiscoverer [''in''] ''**/*.xlsx'' None) [''in'', ''report.xlsx'']"
proof -
  let ?d = "FileDiscoverer [''in''] ''**/*.xlsx'' None"
  have r: "root_exists fs3"
    and g: "glob_result fs3 = Inr [([''in'', ''c.xlsx''], True), ([''in'', ''~$a.xlsx''], True),
                              ([''in'', ''a.xlsx''], True), ([''in'', ''d.xlsx''], False),
                              ([''in'', ''b.xlsx''], True)]"
    by (simp_all add: fs3_def)
  have i: "ignore_patterns ?d = default_ignore_patterns"
    by (simp add: FileDiscoverer_def)
  from discover_sorted_without_ignored [OF r g, of ?d w_new] i obtain found where
    f: "discover ?d fs3 w_new = (Inr found, w_new\<lparr>calls := calls w_new @ [Glob]\<rparr>)"
       "sorted found"
       "set found = {p. (p, True) \<in> set [([''in'', ''c.xlsx''], True), ([''in'', ''~$a.xlsx''], True),
                              ([''in'', ''a.xlsx''], True), ([''in'', ''d.xlsx''], False),
                              ([''in'', ''b.xlsx''], True)] \<and>
                           \<not> (\<exists>pat \<in> set (ignore_patterns ?d). fnmatch (path_name p) pat)}"
       "\<forall>p. should_ignore ?d p \<longleftrightarrow>
                 prefix ''~$'' (path_name p) \<or> prefix ''.~'' (path_name p) \<or>
                 suffix ''.tmp'' (path_name p) \<or> suffix ''.temp'' (path_name p)"
    by blast
  have "found = [[''in'', ''a.xlsx''], [''in'', ''b.xlsx''], [''in'', ''c.xlsx'']]"
    using f(1) by (simp add: discover_eval fs3_def should_ignore_defaults [OF i] path_name_def
        suffix_to_prefix)
  moreover have "should_ignore ?d [''in'', ''~$report.xlsx'']"
    "\<not> should_ignore ?d [''in'', ''report.xlsx'']"
    using f(4) by (simp_all add: path_name_def suffix_to_prefix)
  ultimately show ?thesis using r f(1) by simp
qed

section \<open>Example runs\<close>

lemma env3_files:
  "env3_with ins [''in'', ''a.xlsx''] = works ins ''h-a.xlsx'' [[''A'' \<mapsto> Some [], ''B'' \<mapsto> Some ''yes'']]"
  "env3_with ins [''in'', ''b.xlsx''] = works ins ''h-b'' [[''A'' \<mapsto> Some ''inf'', ''B'' \<mapsto> Some ''yes'']]"
  "env3_with ins [''in'', ''c.xlsx''] = works ins ''h-c.xlsx'' [[''A'' \<mapsto> Some [], ''B'' \<mapsto> Some ''yes'']]"
  by (simp_all add: env3_with_def path_name_def)

lemma process_files_env3:
  "process_files cfg0 env3 [[''in'', ''a.xlsx''], [''in'', ''b.xlsx''], [''in'', ''c.xlsx'']] (0, 0, 0)
     \<lparr>registry = [], calls = cs\<rparr> =
   (Inr (2, 0, 1),
    \<lparr>registry =
       [\<lparr>file_name = ''a.xlsx'', checksum = ''h-a.xlsx'', processed_at = 100,
          status = SUCCESS, error_message = None, row_count = Some 1\<rparr>,
        \<lparr>file_name = ''b.xlsx'', checksum = ''h-b'', processed_at = 100,
          status = FAILED, error_message = Some ''cannot convert float infinity to integer'',
          row_count = None\<rparr>,
        \<lparr>file_name = ''c.xlsx'', checksum = ''h-c.xlsx'', processed_at = 100,
          status = SUCCESS, error_message = None, row_count = Some 1\<rparr>],
     calls = cs @
       [Hash [''in'', ''a.xlsx''], Query ''a.xlsx'', ParseXlsx [''in'', ''a.xlsx''],
        Serialize [[(''A'', PNone), (''B'', PBool True), (''source_file'', PStr ''in/a.xlsx''),
           (''checksum'', PStr ''h-a.xlsx''), (''ingest_ts'', PStr ''2024-05-01T12:00:00'')]] ''a'',
        Upload [''tmp'', ''a.parquet''], LoadJob ''gs://bucket/a.parquet'',
        InsertRow \<lparr>file_name = ''a.xlsx'', checksum = ''h-a.xlsx'', processed_at = 100,
          status = SUCCESS, error_message = None, row_count = Some 1\<rparr>,
        Hash [''in'', ''b.xlsx''], Query ''b.xlsx'', ParseXlsx [''in'', ''b.xlsx''],
        InsertRow \<lparr>file_name = ''b.xlsx'', checksum = ''h-b'', processed_at = 100,
          status = FAILED, error_message = Some ''cannot convert float infinity to integer'',
          row_count = None\<rparr>,
        Hash [''in'', ''c.xlsx''], Query ''c.xlsx'', ParseXlsx [''in'', ''c.xlsx''],
        Serialize [[(''A'', PNone), (''B'', PBool True), (''source_file'', PStr ''in/c.xlsx''),
           (''checksum'', PStr ''h-c.xlsx''), (''ingest_ts'', PStr ''2024-05-01T12:00:00'')]] ''c'',
        Upload [''tmp'', ''c.parquet''], LoadJob ''gs://bucket/c.parquet'',
        InsertRow \<lparr>file_name = ''c.xlsx'', checksum = ''h-c.xlsx'', processed_at = 100,
          status = SUCCESS, error_message = None, row_count = Some 1\<rparr>]\<rparr>)"
  by (simp add: process_files_step env3_def env3_files process_file_works normalize_good_row
      normalize_inf_row path_facts success_rows_def ret_def numeral_2_eq_2 record_processing_eval
      Let_def del: process_files.simps(2))

lemma run_env3:
  "run cfg0 wh_ok fs3 env3 w_new =
   (Inr 1,
    \<lparr>registry =
       [\<lparr>file_name = ''a.xlsx'', checksum = ''h-a.xlsx'', processed_at = 100,
          status = SUCCESS, error_message = None, row_count = Some 1\<rparr>,
        \<lparr>file_name = ''b.xlsx'', checksum = ''h-b'', processed_at = 100,
          status = FAILED, error_message = Some ''cannot convert float infinity to integer'',
          row_count = None\<rparr>,
        \<lparr>file_name = ''c.xlsx'', checksum = ''h-c.xlsx'', processed_at = 100,
          status = SUCCESS, error_message = None, row_count = Some 1\<rparr>],
     calls =
       [GetRegistryTable, GetTargetTable, Glob,
        Hash [''in'', ''a.xlsx''], Query ''a.xlsx'', ParseXlsx [''in'', ''a.xlsx''],
        Serialize [[(''A'', PNone), (''B'', PBool True), (''source_file'', PStr ''in/a.xlsx''),
           (''checksum'', PStr ''h-a.xlsx''), (''ingest_ts'', PStr ''2024-05-01T12:00:00'')]] ''a'',
        Upload [''tmp'', ''a.parquet''], LoadJob ''gs://bucket/a.parquet'',
        InsertRow \<lparr>file_name = ''a.xlsx'', checksum = ''h-a.xlsx'', processed_at = 100,
          status = SUCCESS, error_message = None, row_count = Some 1\<rparr>,
        Hash [''in'', ''b.xlsx''], Query ''b.xlsx'', ParseXlsx [''in'', ''b.xlsx''],
        InsertRow \<lparr>file_name = ''b.xlsx'', checksum = ''h-b'', processed_at = 100,
          status = FAILED, error_message = Some ''cannot convert float infinity to integer'',
          row_count = None\<rparr>,
        Hash [''in'', ''c.xlsx''], Query ''c.xlsx'', ParseXlsx [''in'', ''c.xlsx''],
        Serialize [[(''A'', PNone), (''B'', PBool True), (''source_file'', PStr ''in/c.xlsx''),
           (''checksum'', PStr ''h-c.xlsx''), (''ingest_ts'', PStr ''2024-05-01T12:00:00'')]] ''c'',
        Upload [''tmp'', ''c.parquet''], LoadJob ''gs://bucket/c.parquet'',
        InsertRow \<lparr>file_name = ''c.xlsx'', checksum = ''h-c.xlsx'', processed_at = 100,
          status = SUCCESS, error_message = None, row_count = Some 1\<rparr>,
        Summary 2 0 1]\<rparr>)"
  by (simp add: run_eval run_setup_ok discover_fs3 w_new_def process_files_env3
      del: process_files.simps(2))

lemma run_env3_no_insert:
  "fst (run cfg0 wh_ok fs3 env3_no_insert w_new) = Inr 1"
  "registry (snd (run cfg0 wh_ok fs3 env3_no_insert w_new)) = []"
  "last (calls (snd (run cfg0 wh_ok fs3 env3_no_insert w_new))) = Summary 2 0 1"
  by (simp_all add: run_eval run_setup_ok discover_fs3 w_new_def process_files_step env3_no_insert_def
      env3_files process_file_works normalize_good_row normalize_inf_row path_facts
      success_rows_def ret_def numeral_2_eq_2 record_processing_eval Let_def
      del: process_files.simps(2))

lemma env3_unreadable_files:
  "env3_unreadable [''in'', ''a.xlsx''] = works InsertOk ''h-a.xlsx'' [[''A'' \<mapsto> Some [], ''B'' \<mapsto> Some ''yes'']]"
  "hash_file (env3_unreadable [''in'', ''b.xlsx'']) = Inl (Exn OSError ''Permission denied'')"
  "env3_unreadable [''in'', ''c.xlsx''] = works InsertOk ''h-c.xlsx'' [[''A'' \<mapsto> Some [], ''B'' \<mapsto> Some ''yes'']]"
  by (simp_all add: env3_unreadable_def env3_def env3_files)

lemma run_env3_unreadable:
  "fst (run cfg0 wh_ok fs3 env3_unreadable w_new) = Inr 1"
  "map file_name (registry (snd (run cfg0 wh_ok fs3 env3_unreadable w_new))) = [''a.xlsx'', ''c.xlsx'']"
  "filter (\<lambda>c. \<exists>r. c = InsertRow r \<and> file_name r = ''b.xlsx'')
     (calls (snd (run cfg0 wh_ok fs3 env3_unreadable w_new))) = []"
  "last (calls (snd (run cfg0 wh_ok fs3 env3_unreadable w_new))) = Summary 2 0 1"
  by (simp_all add: run_eval run_setup_ok discover_fs3 w_new_def process_files_step
      env3_unreadable_files process_file_unreadable process_file_works normalize_good_row
      path_facts success_rows_def ret_def numeral_2_eq_2 record_processing_eval Let_def
      del: process_files.simps(2))

lemma discover_fs3_dry:
  "discover (FileDiscoverer (input_directory cfg_dry) (file_pattern cfg_dry)
      (Some (config_ignore_patterns cfg_dry))) fs3 w =
     (Inr [[''in'', ''a.xlsx''], [''in'', ''b.xlsx''], [''in'', ''c.xlsx'']],
      w\<lparr>calls := calls w @ [Glob]\<rparr>)"
  using discover_fs3 [of w] by (simp add: cfg_dry_def)

lemma run_dry:
  "run cfg_dry wh_ok fs3 env3 w_new =
     (Inr 0, \<lparr>registry = [], calls = [GetRegistryTable, GetTargetTable, Glob,
        Hash [''in'', ''a.xlsx''], Query ''a.xlsx'', Hash [''in'', ''b.xlsx''], Query ''b.xlsx'',
        Hash [''in'', ''c.xlsx''], Query ''c.xlsx'', Summary 3 0 0]\<rparr>)"
  by (simp add: run_eval run_setup_ok discover_fs3_dry w_new_def process_files_step env3_def
      env3_files process_file_works_dry path_facts success_rows_def ret_def numeral_3_eq_3
      del: process_files.simps(2))

lemma run_empty:
  "run cfg0 wh_ok fs_empty env3 w_new =
     (Inr 0, \<lparr>registry = [], calls = [GetRegistryTable, GetTargetTable, Glob]\<rparr>)"
  by (simp add: run_eval run_setup_ok discover_eval fs_empty_def w_new_def)

lemma run_setup_broken:
  "run_setup wh_broken w =
     (Inl (Exn OtherException ''403 forbidden''),
      w\<lparr>calls := calls w @ [GetRegistryTable, CreateRegistryTable]\<rparr>)"
  by (simp add: run_setup_eval wh_broken_def wh_ok_def)

section \<open>The claims about the run\<close>

lemma results_partition:
  "length (filter (\<lambda>r. r = Inr True) rs) + length (filter (\<lambda>r. r = Inr False) rs) +
     length (filter isl rs) = length (rs :: (exn + bool) list)"
proof (induction rs)
  case Nil
  then show ?case by simp
next
  case (Cons r rs)
  then show ?case by (cases r) (auto simp: isl_def)
qed

lemma run_completed:
  assumes "fst (run_setup wh w) = Inr ()"
    and "fst (discover (FileDiscoverer (input_directory cfg) (file_pattern cfg)
            (Some (config_ignore_patterns cfg))) fs (snd (run_setup wh w))) = Inr files"
    and "files \<noteq> []"
  shows "\<exists>w3. run cfg wh fs env w =
      (Inr (if 0 < length (filter isl (file_results cfg env files
                (snd (discover (FileDiscoverer (input_directory cfg) (file_pattern cfg)
                   (Some (config_ignore_patterns cfg))) fs (snd (run_setup wh w)))))) then 1 else 0),
       w3\<lparr>calls := calls w3 @
         [Summary
            (length (filter (\<lambda>r. r = Inr True) (file_results cfg env files
                (snd (discover (FileDiscoverer (input_directory cfg) (file_pattern cfg)
                   (Some (config_ignore_patterns cfg))) fs (snd (run_setup wh w)))))))
            (length (filter (\<lambda>r. r = Inr False) (file_results cfg env files
                (snd (discover (FileDiscoverer (input_directory cfg) (file_pattern cfg)
                   (Some (config_ignore_patterns cfg))) fs (snd (run_setup wh w)))))))
            (length (filter isl (file_results cfg env files
                (snd (discover (FileDiscoverer (input_directory cfg) (file_pattern cfg)
                   (Some (config_ignore_patterns cfg))) fs (snd (run_setup wh w)))))))]\<rparr>)"
proof -
  let ?d = "FileDiscoverer (input_directory cfg) (file_pattern cfg) (Some (config_ignore_patterns cfg))"
  obtain w1 where s: "run_setup wh w = (Inr (), w1)"
    using assms(1) by (metis prod.collapse)
  obtain w2 where d: "discover ?d fs w1 = (Inr files, w2)"
    using assms(2) s by (metis prod.collapse snd_conv)
  let ?rs = "file_results cfg env files w2"
  from process_files_never_raises [of cfg env files 0 0 0 w2] obtain w3 where
    p: "process_files cfg env files (0, 0, 0) w2 =
      (Inr (length (filter (\<lambda>r. r = Inr True) ?rs), length (filter (\<lambda>r. r = Inr False) ?rs),
            length (filter isl ?rs)), w3)"
    by auto
  have "run cfg wh fs env w =
      (Inr (if 0 < length (filter isl ?rs) then 1 else 0),
       w3\<lparr>calls := calls w3 @ [Summary (length (filter (\<lambda>r. r = Inr True) ?rs))
          (length (filter (\<lambda>r. r = Inr False) ?rs)) (length (filter isl ?rs))]\<rparr>)"
    using assms(3) by (simp add: run_eval s d p)
  then show ?thesis by (simp add: s d) blast
qed

text \<open>
  C3. \<^verbatim>\<open>run\<close> returns 2 when setup raises. When setup succeeds and no file is
  discovered, it returns 0 right after discovery: nothing is hashed, queried, loaded or
  recorded, and the registry is as before. When files are discovered, every one of them is
  processed, skipped or failed, the summary reports these three counts, and the exit code
  is 1 when at least one file failed and 0 otherwise.
\<close>

theorem run_exit_code:
  "(fst (run_setup wh w) = Inl e \<longrightarrow> fst (run cfg wh fs env w) = Inr 2) \<and>
   (fst (run_setup wh w) = Inr () \<longrightarrow>
    fst (discover (FileDiscoverer (input_directory cfg) (file_pattern cfg)
           (Some (config_ignore_patterns cfg))) fs (snd (run_setup wh w))) = Inr [] \<longrightarrow>
    run cfg wh fs env w =
      (Inr 0, snd (discover (FileDiscoverer (input_directory cfg) (file_pattern cfg)
           (Some (config_ignore_patterns cfg))) fs (snd (run_setup wh w)))) \<and>
    registry (snd (run cfg wh fs env w)) = registry w \<and>
    (calls (snd (run cfg wh fs env w)) = calls (snd (run_setup wh w)) \<or>
     calls (snd (run cfg wh fs env w)) = calls (snd (run_setup wh w)) @ [Glob])) \<and>
   (fst (run_setup wh w) = Inr () \<longrightarrow>
    fst (discover (FileDiscoverer (input_directory cfg) (file_pattern cfg)
           (Some (config_ignore_patterns cfg))) fs (snd (run_setup wh w))) = Inr files \<longrightarrow>
    files \<noteq> [] \<longrightarrow>
    length (filter (\<lambda>r. r = Inr True) (file_results cfg env files
       (snd (discover (FileDiscoverer (input_directory cfg) (file_pattern cfg)
           (Some (config_ignore_patterns cfg))) fs (snd (run_setup wh w)))))) +
    length (filter (\<lambda>r. r = Inr False) (file_results cfg env files
       (snd (discover (FileDiscoverer (input_directory cfg) (file_pattern cfg)
           (Some (config_ignore_patterns cfg))) fs (snd (run_setup wh w)))))) +
    length (filter isl (file_results cfg env files
       (snd (discover (FileDiscoverer (input_directory cfg) (file_pattern cfg)
           (Some (config_ignore_patterns cfg))) fs (snd (run_setup wh w)))))) = length files \<and>
    fst (run cfg wh fs env w) =
      Inr (if 0 < length (filter isl (file_results cfg env files
         (snd (discover (FileDiscoverer (input_directory cfg) (file_pattern cfg)
           (Some (config_ignore_patterns cfg))) fs (snd (run_setup wh w)))))) then 1 else 0) \<and>
    last (calls (snd (run cfg wh fs env w))) =
      Summary
        (length (filter (\<lambda>r. r = Inr True) (file_results cfg env files
           (snd (discover (FileDiscoverer (input_directory cfg) (file_pattern cfg)
             (Some (config_ignore_patterns cfg))) fs (snd (run_setup wh w)))))))
        (length (filter (\<lambda>r. r = Inr False) (file_results cfg env files
           (snd (discover (FileDiscoverer (input_directory cfg) (file_pattern cfg)
             (Some (config_ignore_patterns cfg))) fs (snd (run_setup wh w)))))))
        (length (filter isl (file_results cfg env files
           (snd (discover (FileDiscoverer (input_directory cfg) (file_pattern cfg)
             (Some (config_ignore_patterns cfg))) fs (snd (run_setup wh w))))))))"
proof (intro conjI impI)
  assume "fst (run_setup wh w) = Inl e"
  then show "fst (run cfg wh fs env w) = Inr 2"
    by (cases "run_setup wh w") (simp add: run_eval)
next
  let ?d = "FileDiscoverer (input_directory cfg) (file_pattern cfg) (Some (config_ignore_patterns cfg))"
  assume s: "fst (run_setup wh w) = Inr ()"
    and d: "fst (discover ?d fs (snd (run_setup wh w))) = Inr []"
  obtain w1 where s1: "run_setup wh w = (Inr (), w1)"
    using s by (metis prod.collapse)
  obtain w2 where d2: "discover ?d fs w1 = (Inr [], w2)"
    using d s1 by (metis prod.collapse snd_conv)
  have r: "run cfg wh fs env w = (Inr 0, w2)"
    by (simp add: run_eval s1 d2)
  show "run cfg wh fs env w = (Inr 0, snd (discover ?d fs (snd (run_setup wh w))))"
    by (simp add: r s1 d2)
  have w1: "registry w1 = registry w"
    using run_setup_registry [of wh w] s1 by simp
  have w2: "registry w2 = registry w1" "calls w2 = calls w1 \<or> calls w2 = calls w1 @ [Glob]"
    using d2 by (auto simp: discover_eval split: if_splits sum.splits)
  show "registry (snd (run cfg wh fs env w)) = registry w"
    by (simp add: r w1 w2)
  show "calls (snd (run cfg wh fs env w)) = calls (snd (run_setup wh w)) \<or>
     calls (snd (run cfg wh fs env w)) = calls (snd (run_setup wh w)) @ [Glob]"
    using w2(2) by (simp add: r s1)
next
  let ?d = "FileDiscoverer (input_directory cfg) (file_pattern cfg) (Some (config_ignore_patterns cfg))"
  let ?rs = "file_results cfg env files (snd (discover ?d fs (snd (run_setup wh w))))"
  show "length (filter (\<lambda>r. r = Inr True) ?rs) + length (filter (\<lambda>r. r = Inr False) ?rs) +
      length (filter isl ?rs) = length files"
    by (simp only: results_partition file_results_length)
next
  let ?d = "FileDiscoverer (input_directory cfg) (file_pattern cfg) (Some (config_ignore_patterns cfg))"
  let ?rs = "file_results cfg env files (snd (discover ?d fs (snd (run_setup wh w))))"
  assume a: "fst (run_setup wh w) = Inr ()" "fst (discover ?d fs (snd (run_setup wh w))) = Inr files"
    "files \<noteq> []"
  from run_completed [OF a] obtain w3 where
    r: "run cfg wh fs env w = (Inr (if 0 < length (filter isl ?rs) then 1 else 0),
       w3\<lparr>calls := calls w3 @ [Summary (length (filter (\<lambda>r. r = Inr True) ?rs))
          (length (filter (\<lambda>r. r = Inr False) ?rs)) (length (filter isl ?rs))]\<rparr>)"
    by blast
  show "fst (run cfg wh fs env w) = Inr (if 0 < length (filter isl ?rs) then 1 else 0)"
    by (simp add: r)
  show "last (calls (snd (run cfg wh fs env w))) =
      Summary (length (filter (\<lambda>r. r = Inr True) ?rs)) (length (filter (\<lambda>r. r = Inr False) ?rs))
        (length (filter isl ?rs))"
    by (simp add: r)
qed

theorem run_exit_code_witness:
  "fst (run_setup wh_broken w_new) = Inl (Exn OtherException ''403 forbidden'') \<and>
   fst (run cfg0 wh_broken fs3 env3 w_new) = Inr 2 \<and>
   fst (run_setup wh_ok w_new) = Inr () \<and>
   run cfg0 wh_ok fs_empty env3 w_new =
     (Inr 0, \<lparr>registry = [], calls = [GetRegistryTable, GetTargetTable, Glob]\<rparr>) \<and>
   fst (run cfg0 wh_ok fs3 env3 w_new) = Inr 1 \<and>
   last (calls (snd (run cfg0 wh_ok fs3 env3 w_new))) = Summary 2 0 1 \<and>
   fst (run cfg_dry wh_ok fs3 env3 w_new) = Inr 0 \<and>
   last (calls (snd (run cfg_dry wh_ok fs3 env3 w_new))) = Summary 3 0 0"
proof -
  let ?d = "FileDiscoverer (input_directory cfg0) (file_pattern cfg0) (Some (config_ignore_patterns cfg0))"
  let ?abc = "[[''in'', ''a.xlsx''], [''in'', ''b.xlsx''], [''in'', ''c.xlsx'']]"
  have b: "fst (run_setup wh_broken w_new) = Inl (Exn OtherException ''403 forbidden'')"
    by (simp add: run_setup_broken)
  have ok: "fst (run_setup wh_ok w_new) = Inr ()"
    by (simp add: run_setup_ok)
  have e: "fst (discover ?d fs_empty (snd (run_setup wh_ok w_new))) = Inr []"
    by (simp add: discover_eval fs_empty_def)
  have w2: "snd (discover ?d fs_empty (snd (run_setup wh_ok w_new))) =
      \<lparr>registry = [], calls = [GetRegistryTable, GetTargetTable, Glob]\<rparr>"
    by (simp add: discover_eval fs_empty_def run_setup_ok w_new_def)
  have f: "fst (discover ?d fs3 (snd (run_setup wh_ok w_new))) = Inr ?abc" "?abc \<noteq> []"
    by (simp_all add: discover_fs3)
  from run_exit_code [of wh_broken w_new "Exn OtherException ''403 forbidden''" cfg0 fs3 env3 ?abc] b
  have 1: "fst (run cfg0 wh_broken fs3 env3 w_new) = Inr 2" by blast
  from run_exit_code [of wh_ok w_new "Exn OtherException ''403 forbidden''" cfg0 fs_empty env3 ?abc] ok e
  have 2: "run cfg0 wh_ok fs_empty env3 w_new =
      (Inr 0, \<lparr>registry = [], calls = [GetRegistryTable, GetTargetTable, Glob]\<rparr>)"
    by (simp add: w2)
  show ?thesis
    using b ok 1 2 run_env3 run_dry by simp
qed

theorem dry_run_no_side_effects_witness:
  "dry_run cfg_dry \<and>
   fst (should_process (query_raises (env3 [''in'', ''a.xlsx''])) [''in'', ''a.xlsx''] ''h-a.xlsx'' w_new)
     = Inr True \<and>
   process_file cfg_dry (env3 [''in'', ''a.xlsx'']) [''in'', ''a.xlsx''] w_new =
     (Inr True, \<lparr>registry = [], calls = [Hash [''in'', ''a.xlsx''], Query ''a.xlsx'']\<rparr>) \<and>
   process_files cfg_dry env3 [[''in'', ''a.xlsx'']] (0, 0, 0) w_new =
     (Inr (1, 0, 0), \<lparr>registry = [], calls = [Hash [''in'', ''a.xlsx''], Query ''a.xlsx'']\<rparr>)"
proof -
  let ?p = "[''in'', ''a.xlsx'']"
  have d: "dry_run cfg_dry" by (simp add: cfg_dry_def)
  have q: "query_raises (env3 ?p) = None" "hash_file (env3 ?p) = Inr ''h-a.xlsx''"
    by (simp_all add: env3_def env3_files works_def)
  have c: "fst (calculate (checksum_algorithm cfg_dry) (hash_file (env3 ?p)) ?p w_new) = Inr ''h-a.xlsx''"
    by (simp add: calculate_eval cfg_dry_def cfg0_def q)
  have s: "fst (should_process (query_raises (env3 ?p)) ?p ''h-a.xlsx'' w_new) = Inr True"
    by (simp add: q should_process_eval w_new_def select_checksum_def success_rows_def)
  from dry_run_no_side_effects [where cfg = cfg_dry and env = env3 and p = ?p and w = w_new
      and csum = "''h-a.xlsx''" and ps = "[]" and pc = 0 and sc = 0 and fc = 0, OF d c s]
  obtain w' where
    w': "process_file cfg_dry (env3 ?p) ?p w_new = (Inr True, w')"
      "registry w' = registry w_new"
      "calls w' = calls w_new @ Hash ?p # Query (path_name ?p) #
         (case query_raises (env3 ?p) of None \<Rightarrow> []
          | Some e \<Rightarrow> [Logged WARNING (''Failed to query checksum for '' @ path_name ?p @ '': '' @
              str_exn e)])"
      "process_files cfg_dry env3 [?p] (0, 0, 0) w_new = process_files cfg_dry env3 [] (Suc 0, 0, 0) w'"
    by blast
  have "w' = \<lparr>registry = [], calls = [Hash ?p, Query ''a.xlsx'']\<rparr>"
    using w'(2,3) by (cases w') (simp add: w_new_def q path_facts)
  with w'(1,4) d s show ?thesis by (simp add: ret_def)
qed

text \<open>
  C4, as stated, fails. The checksum is computed before the \<^verbatim>\<open>try\<close> block of
  \<^verbatim>\<open>_process_file\<close>, so a failure there reaches the loop of \<^verbatim>\<open>run\<close> without any
  registry write: in the run below \<^verbatim>\<open>b.xlsx\<close> cannot be read, it is counted as failed
  and the run goes on, but the registry holds no entry for it and no insertion was tried.
\<close>

theorem fingerprint_failure_no_registry_entry_counterexample:
  "hash_file (env3_unreadable [''in'', ''b.xlsx'']) = Inl (Exn OSError ''Permission denied'') \<and>
   fst (run cfg0 wh_ok fs3 env3_unreadable w_new) = Inr 1 \<and>
   last (calls (snd (run cfg0 wh_ok fs3 env3_unreadable w_new))) = Summary 2 0 1 \<and>
   map file_name (registry (snd (run cfg0 wh_ok fs3 env3_unreadable w_new))) = [''a.xlsx'', ''c.xlsx''] \<and>
   filter (\<lambda>c. \<exists>r. c = InsertRow r \<and> file_name r = ''b.xlsx'')
     (calls (snd (run cfg0 wh_ok fs3 env3_unreadable w_new))) = []"
  by (simp add: env3_unreadable_files run_env3_unreadable)

theorem fingerprint_failure_counted_not_recorded_witness:
  "fst (calculate (checksum_algorithm cfg0) (hash_file (env3_unreadable [''in'', ''b.xlsx'']))
      [''in'', ''b.xlsx''] w_new) = Inl (Exn OSError ''Permission denied'') \<and>
   process_file cfg0 (env3_unreadable [''in'', ''b.xlsx'']) [''in'', ''b.xlsx''] w_new =
     (Inl (Exn OSError ''Permission denied''), \<lparr>registry = [], calls = [Hash [''in'', ''b.xlsx'']]\<rparr>) \<and>
   process_files cfg0 env3_unreadable [[''in'', ''b.xlsx'']] (0, 0, 0) w_new =
     (Inr (0, 0, 1), \<lparr>registry = [], calls = [Hash [''in'', ''b.xlsx'']]\<rparr>)"
proof -
  let ?p = "[''in'', ''b.xlsx'']"
  let ?e = "Exn OSError ''Permission denied''"
  have c: "fst (calculate (checksum_algorithm cfg0) (hash_file (env3_unreadable ?p)) ?p w_new) = Inl ?e"
    by (simp add: calculate_eval cfg0_def env3_unreadable_files)
  from fingerprint_failure_counted_not_recorded [where cfg = cfg0 and env = env3_unreadable
      and p = ?p and w = w_new and e = ?e and ps = "[]" and pc = 0 and sc = 0 and fc = 0, OF c]
  obtain w' where
    w': "process_file cfg0 (env3_unreadable ?p) ?p w_new = (Inl ?e, w')"
      "registry w' = registry w_new"
      "calls w' = calls w_new \<or> calls w' = calls w_new @ [Hash ?p]"
      "process_files cfg0 env3_unreadable [?p] (0, 0, 0) w_new =
         process_files cfg0 env3_unreadable [] (0, 0, Suc 0) w'"
    by blast
  have "snd (process_file cfg0 (env3_unreadable ?p) ?p w_new) =
      \<lparr>registry = [], calls = [Hash ?p]\<rparr>"
    by (simp add: process_file_unreadable env3_unreadable_files w_new_def)
  with w'(1) have "w' = \<lparr>registry = [], calls = [Hash ?p]\<rparr>" by simp
  with w'(1,4) c show ?thesis by (simp add: ret_def)
qed

text \<open>
  C2, as stated, fails when the registry refuses the insertion: normalization of
  \<^verbatim>\<open>b.xlsx\<close> raises, the file is counted as failed and the exit code is 1, but no
  FAILED record is in the registry after the run, since \<^verbatim>\<open>record_processing\<close> only
  logs an insertion that did not go through.
\<close>

theorem failed_record_not_appended_counterexample:
  "fst (transform_and_load cfg0 (env3_no_insert [''in'', ''b.xlsx'']) [''in'', ''b.xlsx''] ''h-b'' w_new) =
     Inl (Exn OverflowError ''cannot convert float infinity to integer'') \<and>
   fst (run cfg0 wh_ok fs3 env3_no_insert w_new) = Inr 1 \<and>
   last (calls (snd (run cfg0 wh_ok fs3 env3_no_insert w_new))) = Summary 2 0 1 \<and>
   registry (snd (run cfg0 wh_ok fs3 env3_no_insert w_new)) = []"
proof -
  have s: "schema cfg0 = schema_AB" by (simp add: cfg0_def)
  have "fst (transform_and_load cfg0 (env3_no_insert [''in'', ''b.xlsx'']) [''in'', ''b.xlsx''] ''h-b''
      w_new) = Inl (Exn OverflowError ''cannot convert float infinity to integer'')"
    by (simp add: env3_no_insert_def env3_files transform_and_load_works s normalize_inf_row)
  then show ?thesis using run_env3_no_insert by simp
qed

text \<open>
  C2, amended. When a file is to be processed (not a dry run) and parsing, normalizing,
  serializing, uploading or loading raises, \<^verbatim>\<open>_process_file\<close> calls
  \<^verbatim>\<open>record_processing\<close> with status FAILED and the message of the exception and
  raises again; the FAILED record is appended to the registry when its insertion goes
  through, and otherwise the registry stays as it was. The loop of \<^verbatim>\<open>run\<close> catches
  the exception, adds one to the failed count and goes on with the next file. And a run
  over three files of which the first and third are processed and the second raises
  reports 2 processed, 0 skipped, 1 failed and returns exit code 1.
\<close>

theorem stage_failure_recorded_and_counted:
  "(fst (calculate (checksum_algorithm cfg) (hash_file (env p)) p w) = Inr csum \<longrightarrow>
    fst (should_process (query_raises (env p)) p csum w) = Inr True \<longrightarrow>
    \<not> dry_run cfg \<longrightarrow>
    fst (transform_and_load cfg (env p) p csum w) = Inl e \<longrightarrow>
    (\<exists>w'. process_file cfg (env p) p w = (Inl e, w') \<and>
       InsertRow \<lparr>file_name = path_name p, checksum = csum, processed_at = record_time (env p),
          status = FAILED, error_message = Some (str_exn e), row_count = None\<rparr> \<in> set (calls w') \<and>
       (insert_row (env p) \<lparr>file_name = path_name p, checksum = csum,
          processed_at = record_time (env p), status = FAILED,
          error_message = Some (str_exn e), row_count = None\<rparr> = InsertOk \<longrightarrow>
        registry w' = registry w @ [\<lparr>file_name = path_name p, checksum = csum,
          processed_at = record_time (env p), status = FAILED,
          error_message = Some (str_exn e), row_count = None\<rparr>]) \<and>
       (insert_row (env p) \<lparr>file_name = path_name p, checksum = csum,
          processed_at = record_time (env p), status = FAILED,
          error_message = Some (str_exn e), row_count = None\<rparr> \<noteq> InsertOk \<longrightarrow>
        registry w' = registry w) \<and>
       process_files cfg env (p # ps) (pc, sc, fc) w =
         process_files cfg env ps (pc, sc, Suc fc) w')) \<and>
   (fst (run_setup wh w) = Inr () \<longrightarrow>
    fst (discover (FileDiscoverer (input_directory cfg) (file_pattern cfg)
           (Some (config_ignore_patterns cfg))) fs (snd (run_setup wh w))) = Inr [p1, p2, p3] \<longrightarrow>
    file_results cfg env [p1, p2, p3]
      (snd (discover (FileDiscoverer (input_directory cfg) (file_pattern cfg)
           (Some (config_ignore_patterns cfg))) fs (snd (run_setup wh w)))) =
      [Inr True, Inl e2, Inr True] \<longrightarrow>
    fst (run cfg wh fs env w) = Inr 1 \<and>
    last (calls (snd (run cfg wh fs env w))) = Summary 2 0 1)"
proof (intro conjI impI)
  assume "fst (calculate (checksum_algorithm cfg) (hash_file (env p)) p w) = Inr csum"
    "fst (should_process (query_raises (env p)) p csum w) = Inr True"
    "\<not> dry_run cfg"
    "fst (transform_and_load cfg (env p) p csum w) = Inl e"
  then show "\<exists>w'. process_file cfg (env p) p w = (Inl e, w') \<and>
       InsertRow \<lparr>file_name = path_name p, checksum = csum, processed_at = record_time (env p),
          status = FAILED, error_message = Some (str_exn e), row_count = None\<rparr> \<in> set (calls w') \<and>
       (insert_row (env p) \<lparr>file_name = path_name p, checksum = csum,
          processed_at = record_time (env p), status = FAILED,
          error_message = Some (str_exn e), row_count = None\<rparr> = InsertOk \<longrightarrow>
        registry w' = registry w @ [\<lparr>file_name = path_name p, checksum = csum,
          processed_at = record_time (env p), status = FAILED,
          error_message = Some (str_exn e), row_count = None\<rparr>]) \<and>
       (insert_row (env p) \<lparr>file_name = path_name p, checksum = csum,
          processed_at = record_time (env p), status = FAILED,
          error_message = Some (str_exn e), row_count = None\<rparr> \<noteq> InsertOk \<longrightarrow>
        registry w' = registry w) \<and>
       process_files cfg env (p # ps) (pc, sc, fc) w =
         process_files cfg env ps (pc, sc, Suc fc) w'"
    by (rule stage_failure_step)
next
  let ?d = "FileDiscoverer (input_directory cfg) (file_pattern cfg) (Some (config_ignore_patterns cfg))"
  assume a: "fst (run_setup wh w) = Inr ()"
    "fst (discover ?d fs (snd (run_setup wh w))) = Inr [p1, p2, p3]"
    and r: "file_results cfg env [p1, p2, p3] (snd (discover ?d fs (snd (run_setup wh w)))) =
      [Inr True, Inl e2, Inr True]"
  have ne: "[p1, p2, p3] \<noteq> []" by simp
  from run_completed [OF a ne, of env] obtain w3 where
    "run cfg wh fs env w = (Inr 1, w3\<lparr>calls := calls w3 @ [Summary (Suc (Suc 0)) 0 (Suc 0)]\<rparr>)"
    unfolding r by (auto simp: isl_def)
  then show "fst (run cfg wh fs env w) = Inr 1"
    "last (calls (snd (run cfg wh fs env w))) = Summary 2 0 1"
    by (simp_all add: numeral_2_eq_2)
qed

theorem stage_failure_recorded_and_counted_witness:
  "fst (should_process (query_raises (env3 [''in'', ''b.xlsx''])) [''in'', ''b.xlsx''] ''h-b'' w_new)
     = Inr True \<and>
   fst (transform_and_load cfg0 (env3 [''in'', ''b.xlsx'']) [''in'', ''b.xlsx''] ''h-b'' w_new) =
     Inl (Exn OverflowError ''cannot convert float infinity to integer'') \<and>
   fst (process_file cfg0 (env3 [''in'', ''b.xlsx'']) [''in'', ''b.xlsx''] w_new) =
     Inl (Exn OverflowError ''cannot convert float infinity to integer'') \<and>
   registry (snd (process_file cfg0 (env3 [''in'', ''b.xlsx'']) [''in'', ''b.xlsx''] w_new)) =
     [\<lparr>file_name = ''b.xlsx'', checksum = ''h-b'', processed_at = 100, status = FAILED,
       error_message = Some ''cannot convert float infinity to integer'', row_count = None\<rparr>] \<and>
   file_results cfg0 env3 [[''in'', ''a.xlsx''], [''in'', ''b.xlsx''], [''in'', ''c.xlsx'']]
     \<lparr>registry = [], calls = [GetRegistryTable, GetTargetTable, Glob]\<rparr> =
     [Inr True, Inl (Exn OverflowError ''cannot convert float infinity to integer''), Inr True] \<and>
   fst (run cfg0 wh_ok fs3 env3 w_new) = Inr 1 \<and>
   last (calls (snd (run cfg0 wh_ok fs3 env3 w_new))) = Summary 2 0 1 \<and>
   map status (registry (snd (run cfg0 wh_ok fs3 env3 w_new))) = [SUCCESS, FAILED, SUCCESS]"
proof -
  let ?a = "[''in'', ''a.xlsx'']" and ?b = "[''in'', ''b.xlsx'']" and ?c = "[''in'', ''c.xlsx'']"
  let ?e = "Exn OverflowError ''cannot convert float infinity to integer''"
  let ?d = "FileDiscoverer (input_directory cfg0) (file_pattern cfg0) (Some (config_ignore_patterns cfg0))"
  let ?row = "\<lparr>file_name = ''b.xlsx'', checksum = ''h-b'', processed_at = 100, status = FAILED,
       error_message = Some ''cannot convert float infinity to integer'', row_count = None\<rparr>"
  have s: "schema cfg0 = schema_AB" "\<not> dry_run cfg0" by (simp_all add: cfg0_def)
  have o: "hash_file (env3 ?b) = Inr ''h-b''" "query_raises (env3 ?b) = None"
    "insert_row (env3 ?b) = (\<lambda>r. InsertOk)" "record_time (env3 ?b) = 100"
    by (simp_all add: env3_def env3_files works_def)
  have h: "fst (calculate (checksum_algorithm cfg0) (hash_file (env3 ?b)) ?b w_new) = Inr ''h-b''"
    by (simp add: calculate_eval cfg0_def o)
  have q: "fst (should_process (query_raises (env3 ?b)) ?b ''h-b'' w_new) = Inr True"
    by (simp add: o should_process_eval w_new_def select_checksum_def success_rows_def)
  have t: "fst (transform_and_load cfg0 (env3 ?b) ?b ''h-b'' w_new) = Inl ?e"
    by (simp add: env3_def env3_files transform_and_load_works s normalize_inf_row)
  have fr: "file_results cfg0 env3 [?a, ?b, ?c]
      \<lparr>registry = [], calls = [GetRegistryTable, GetTargetTable, Glob]\<rparr> = [Inr True, Inl ?e, Inr True]"
    by (simp add: env3_def env3_files process_file_works normalize_good_row normalize_inf_row
        path_facts success_rows_def record_processing_eval Let_def)
  have su: "fst (run_setup wh_ok w_new) = Inr ()"
    and di: "fst (discover ?d fs3 (snd (run_setup wh_ok w_new))) = Inr [?a, ?b, ?c]"
    and w2: "snd (discover ?d fs3 (snd (run_setup wh_ok w_new))) =
      \<lparr>registry = [], calls = [GetRegistryTable, GetTargetTable, Glob]\<rparr>"
    by (simp_all add: run_setup_ok discover_fs3 w_new_def)
  note inst = stage_failure_recorded_and_counted [where cfg = cfg0 and env = env3 and p = ?b
      and w = w_new and csum = "''h-b''" and e = ?e and ps = "[]" and pc = 0 and sc = 0 and fc = 0
      and wh = wh_ok and fs = fs3 and ?p1.0 = ?a and ?p2.0 = ?b and ?p3.0 = ?c and ?e2.0 = ?e]
  from inst h q s(2) t obtain w' where
    w': "process_file cfg0 (env3 ?b) ?b w_new = (Inl ?e, w')"
      "insert_row (env3 ?b) \<lparr>file_name = path_name ?b, checksum = ''h-b'',
          processed_at = record_time (env3 ?b), status = FAILED,
          error_message = Some (str_exn ?e), row_count = None\<rparr> = InsertOk \<longrightarrow>
        registry w' = registry w_new @ [\<lparr>file_name = path_name ?b, checksum = ''h-b'',
          processed_at = record_time (env3 ?b), status = FAILED,
          error_message = Some (str_exn ?e), row_count = None\<rparr>]"
    by blast
  have reg: "registry w' = [?row]"
    using w'(2) by (simp add: o path_facts w_new_def)
  from inst su di fr w2 have run: "fst (run cfg0 wh_ok fs3 env3 w_new) = Inr 1"
    "last (calls (snd (run cfg0 wh_ok fs3 env3 w_new))) = Summary 2 0 1"
    by simp_all
  have st: "map status (registry (snd (run cfg0 wh_ok fs3 env3 w_new))) = [SUCCESS, FAILED, SUCCESS]"
    by (simp add: run_env3)
  show ?thesis
    using q t w'(1) reg fr run st by simp
qed

end
